theory Spec2Isabelle
  imports Complex_Main "HOL-Library.Sublist" "HOL-Library.AList" "HOL-Library.Multiset"
begin

section \<open>Python strings\<close>

text \<open>
  A Python \<open>str\<close> is modelled as a \<open>string\<close>: a sequence of the characters with the code
  points 0 to 255, the Latin-1 range of Unicode. On them \<open>str.lower\<close> maps the letters
  A to Z and the thirty capital letters from U+00C0 to U+00DE (U+00D7, the multiplication
  sign, is none) to the character 32 code points further and leaves every other
  character alone; \<open>str.strip\<close> removes from both ends the characters for which
  \<open>str.isspace\<close> holds: the codes 9 to 13 and 28 to 32, U+0085 and U+00A0.
\<close>

definition upper_chars :: "char list" where
  "upper_chars =
     ''ABCDEFGHIJKLMNOPQRSTUVWXYZ'' @
     [CHR 0xC0, CHR 0xC1, CHR 0xC2, CHR 0xC3, CHR 0xC4, CHR 0xC5, CHR 0xC6, CHR 0xC7,
      CHR 0xC8, CHR 0xC9, CHR 0xCA, CHR 0xCB, CHR 0xCC, CHR 0xCD, CHR 0xCE, CHR 0xCF,
      CHR 0xD0, CHR 0xD1, CHR 0xD2, CHR 0xD3, CHR 0xD4, CHR 0xD5, CHR 0xD6,
      CHR 0xD8, CHR 0xD9, CHR 0xDA, CHR 0xDB, CHR 0xDC, CHR 0xDD, CHR 0xDE]"

definition lower_chars :: "char list" where
  "lower_chars =
     ''abcdefghijklmnopqrstuvwxyz'' @
     [CHR 0xE0, CHR 0xE1, CHR 0xE2, CHR 0xE3, CHR 0xE4, CHR 0xE5, CHR 0xE6, CHR 0xE7,
      CHR 0xE8, CHR 0xE9, CHR 0xEA, CHR 0xEB, CHR 0xEC, CHR 0xED, CHR 0xEE, CHR 0xEF,
      CHR 0xF0, CHR 0xF1, CHR 0xF2, CHR 0xF3, CHR 0xF4, CHR 0xF5, CHR 0xF6,
      CHR 0xF8, CHR 0xF9, CHR 0xFA, CHR 0xFB, CHR 0xFC, CHR 0xFD, CHR 0xFE]"

definition lower_char :: "char \<Rightarrow> char" where
  "lower_char c =
     (case map_of (zip upper_chars lower_chars) c of
        Some d \<Rightarrow> d
      | None \<Rightarrow> c)"

definition lower :: "string \<Rightarrow> string" where
  "lower s = map lower_char s"

definition is_space :: "char \<Rightarrow> bool" where
  "is_space c =
     (c \<in> set [CHR 0x09, CHR 0x0A, CHR 0x0B, CHR 0x0C, CHR 0x0D,
                CHR 0x1C, CHR 0x1D, CHR 0x1E, CHR 0x1F, CHR 0x20, CHR 0x85, CHR 0xA0])"

definition strip :: "string \<Rightarrow> string" where
  "strip s = rev (dropWhile is_space (rev (dropWhile is_space s)))"

text \<open>\<open>t in s\<close> on two strings: \<open>t\<close> occurs in \<open>s\<close> as a contiguous substring.\<close>

fun str_in :: "string \<Rightarrow> string \<Rightarrow> bool" where
  "str_in t [] = (t = [])"
| "str_in t (c # s) = (prefix t (c # s) \<or> str_in t s)"

text \<open>\<open>sep.join(parts)\<close>.\<close>

fun py_join :: "string \<Rightarrow> string list \<Rightarrow> string" where
  "py_join sep [] = []"
| "py_join sep [x] = x"
| "py_join sep (x # y # ys) = x @ sep @ py_join sep (y # ys)"

text \<open>
  Exceptions are values: a function that can raise returns \<open>py_error + 'a\<close>, with \<open>Inl\<close>
  for the exception. \<open>LibraryError\<close> stands for the exceptions of PyPDF2, python-docx
  and the hosted model clients, which the repository never tells apart.
\<close>

datatype py_error =
    ValueError string
  | FileNotFoundError string
  | AttributeError string
  | TypeError string
  | OSError string
  | LibraryError string

section \<open>Python sets\<close>

text \<open>
  A Python \<open>set\<close> is modelled by the list of its elements without repetition, in the
  order of insertion. CPython iterates a set of strings in an order fixed by the hash
  seed of the process, so every function that lists a set (\<open>list(s)\<close>, \<open>for t in s\<close>)
  takes that order as a parameter \<open>order\<close>, a rearrangement of the list of elements.
\<close>

definition set_add :: "'a \<Rightarrow> 'a list \<Rightarrow> 'a list" where
  "set_add x s = (if x \<in> set s then s else s @ [x])"

definition py_set :: "'a list \<Rightarrow> 'a list" where
  "py_set xs = fold set_add xs []"

definition set_union :: "'a list \<Rightarrow> 'a list \<Rightarrow> 'a list" where
  "set_union a b = fold set_add b a"

section \<open>utils.py\<close>

definition SKILL_SYNONYMS :: "(string \<times> string list) list" where
  "SKILL_SYNONYMS =
    [(''sql'', [''mysql'', ''postgresql'', ''sqlite'', ''mariadb'']),
     (''nosql'', [''mongodb'', ''cassandra'', ''dynamodb'', ''couchdb'']),
     (''ml'', [''machine learning'', ''ml'', ''ai'']),
     (''nlp'', [''natural language processing'', ''text analytics'']),
     (''frontend'', [''react'', ''vue'', ''angular'', ''html'', ''css'', ''javascript'']),
     (''backend'', [''fastapi'', ''django'', ''flask'', ''node.js''])]"

text \<open>
  The inner loop of \<open>normalize_skills\<close> over the items of the table, in the order of the
  dictionary: the first canonical name whose entry matches the skill, \<open>None\<close> when the
  loop ends with \<open>matched\<close> still false.
\<close>

fun lookup_canonical :: "(string \<times> string list) list \<Rightarrow> string \<Rightarrow> string option" where
  "lookup_canonical [] skill = None"
| "lookup_canonical ((canonical, variants) # rest) skill =
     (if skill = canonical \<or> skill \<in> set variants then Some canonical
      else lookup_canonical rest skill)"

definition canonical_of :: "string \<Rightarrow> string" where
  "canonical_of skill =
     (case lookup_canonical SKILL_SYNONYMS skill of Some canonical \<Rightarrow> canonical | None \<Rightarrow> skill)"

definition normalize_skills :: "(string list \<Rightarrow> string list) \<Rightarrow> string list \<Rightarrow> string list" where
  "normalize_skills order skills =
     (let skills' = map (\<lambda>s. strip (lower s)) skills;
          normalized = fold (\<lambda>skill acc. set_add (canonical_of skill) acc) skills' []
      in order normalized)"

text \<open>
  \<open>process.extractOne(query, choices, scorer=fuzz.token_set_ratio)\<close> of the rapidfuzz
  library, which is not part of the repository. The scorer is a parameter: it gives a
  similarity between 0 and 100, or raises. \<open>extractOne\<close> scores the choices in
  their order and returns the first choice of maximal score with its score and its
  index, \<open>None\<close> for an empty list of choices; an exception of the scorer leaves it.
\<close>

type_synonym scorer = "string \<Rightarrow> string \<Rightarrow> py_error + real"

fun extract_loop ::
  "scorer \<Rightarrow> string \<Rightarrow> string list \<Rightarrow> nat \<Rightarrow> (string \<times> real \<times> nat) option
     \<Rightarrow> py_error + (string \<times> real \<times> nat) option" where
  "extract_loop sc query [] i best = Inr best"
| "extract_loop sc query (choice # choices) i best =
     (case sc query choice of
        Inl e \<Rightarrow> Inl e
      | Inr score \<Rightarrow>
          extract_loop sc query choices (Suc i)
            (case best of
               None \<Rightarrow> Some (choice, score, i)
             | Some (m, s, k) \<Rightarrow> if s < score then Some (choice, score, i) else best))"

definition extractOne ::
  "scorer \<Rightarrow> string \<Rightarrow> string list \<Rightarrow> py_error + (string \<times> real \<times> nat) option" where
  "extractOne sc query choices = extract_loop sc query choices 0 None"

text \<open>The body of the loop over the skills: the list \<open>matched\<close> after one more skill.\<close>

definition match_skill :: "scorer \<Rightarrow> string list \<Rightarrow> real \<Rightarrow> string \<Rightarrow> string list \<Rightarrow> string list" where
  "match_skill sc jd_terms threshold skill matched =
     (case extractOne sc skill jd_terms of
        Inl e \<Rightarrow> matched
      | Inr None \<Rightarrow> matched
      | Inr (Some (match, score, k)) \<Rightarrow>
          if threshold \<le> score then matched @ [match] else matched)"

definition all_known :: "string list" where
  "all_known = set_union (py_set (concat (map snd SKILL_SYNONYMS))) (py_set (map fst SKILL_SYNONYMS))"

definition jd_terms_of :: "(string list \<Rightarrow> string list) \<Rightarrow> string \<Rightarrow> string list" where
  "jd_terms_of order jd_text = filter (\<lambda>t. str_in t (lower jd_text)) (order all_known)"

definition fuzzy_expand_skills ::
  "(string list \<Rightarrow> string list) \<Rightarrow> scorer \<Rightarrow> string list \<Rightarrow> string \<Rightarrow> real \<Rightarrow> string list" where
  "fuzzy_expand_skills order sc skills jd_text threshold =
     (if skills = [] \<or> jd_text = [] then skills
      else
        let jd_terms = jd_terms_of order jd_text in
        if jd_terms = [] then skills
        else
          let matched = fold (match_skill sc jd_terms threshold) skills []
          in order (py_set (skills @ matched)))"

definition default_threshold :: real where
  "default_threshold = 85"

section \<open>main.py: ResumeExtractor\<close>

text \<open>
  The file system is a map from paths to file contents. PyPDF2 and python-docx are not
  part of the repository: the parsers \<open>PdfReader\<close> and \<open>Document\<close> are parameters that
  give the parsed document or raise, and \<open>str_of\<close> is Python's \<open>str\<close> on a PDF object
  that is not a string. The calls of \<open>tempfile\<close> and \<open>os\<close> can fail as well, and how they
  do is a parameter too: \<open>tmp_create_fault\<close> is the exception that \<open>NamedTemporaryFile\<close>
  raises, if any; \<open>tmp_write_fault\<close> gives, for the data to write, the exception that
  \<open>tmp.write\<close> raises, if any, with the part of the data that has reached the file by
  then; \<open>tmp_close_fault\<close> is the exception raised when the \<open>with\<close> statement closes the
  file after a successful write; \<open>os_remove_fault\<close> gives, for a path, the exception that
  \<open>os.remove\<close> raises on a file that exists, if any.
\<close>

type_synonym bytes = string
type_synonym fs = "string \<rightharpoonup> bytes"

text \<open>
  A PDF object as the code meets it: \<open>None\<close> (the value of \<open>get\<close> on an absent key), a
  name or a string, a dictionary, an array, and an indirect reference, which
  \<open>get_object\<close> resolves unless it dangles.
\<close>

datatype pdf_obj =
    PdfNone
  | PdfStr string
  | PdfDict "(string \<times> pdf_obj) list"
  | PdfArray "pdf_obj list"
  | PdfIndirect "pdf_obj option"

record pdf_page =
  extract_text :: "py_error + string option"
  page_dict :: "(string \<times> pdf_obj) list"

record docx_rel =
  reltype :: string
  target_ref :: string

record docx_document =
  paragraphs :: "string option list"
  rels :: "docx_rel list"

record library =
  PdfReader :: "bytes \<Rightarrow> py_error + pdf_page list"
  Document :: "bytes \<Rightarrow> py_error + docx_document"
  str_of :: "pdf_obj \<Rightarrow> string"
  tmp_create_fault :: "py_error option"
  tmp_write_fault :: "bytes \<Rightarrow> (py_error \<times> bytes) option"
  tmp_close_fault :: "py_error option"
  os_remove_fault :: "string \<Rightarrow> py_error option"

fun get_object :: "pdf_obj \<Rightarrow> py_error + pdf_obj" where
  "get_object PdfNone = Inl (AttributeError ''get_object'')"
| "get_object (PdfIndirect None) = Inl (LibraryError ''get_object'')"
| "get_object (PdfIndirect (Some obj)) = Inr obj"
| "get_object obj = Inr obj"

fun truthy :: "pdf_obj \<Rightarrow> bool" where
  "truthy PdfNone = False"
| "truthy (PdfStr s) = (s \<noteq> [])"
| "truthy (PdfDict kv) = (kv \<noteq> [])"
| "truthy (PdfArray xs) = (xs \<noteq> [])"
| "truthy (PdfIndirect r) = True"

fun obj_get :: "pdf_obj \<Rightarrow> string \<Rightarrow> py_error + pdf_obj" where
  "obj_get (PdfDict kv) key = Inr (case map_of kv key of None \<Rightarrow> PdfNone | Some v \<Rightarrow> v)"
| "obj_get obj key = Inl (AttributeError ''get'')"

text \<open>
  Lines 37 to 56 of \<open>extract_urls_from_pdf\<close>: the URL of one annotation reference, \<open>None\<close>
  where the body reaches \<open>continue\<close> or finds no URI, \<open>Inl\<close> where an exception leaves
  the body for the handler of the function.
\<close>

definition link_uri :: "library \<Rightarrow> pdf_obj \<Rightarrow> py_error + string option" where
  "link_uri L annotation_ref =
     (case get_object annotation_ref of
        Inl e \<Rightarrow> Inr None
      | Inr annotation \<Rightarrow>
          (case obj_get annotation ''/Subtype'' of
             Inl e \<Rightarrow> Inl e
           | Inr subtype \<Rightarrow>
               if subtype \<noteq> PdfStr ''/Link'' then Inr None
               else
                 (case obj_get annotation ''/A'' of
                    Inl e \<Rightarrow> Inl e
                  | Inr action \<Rightarrow>
                      if \<not> truthy action then Inr None
                      else
                        let action' = (case get_object action of Inl e \<Rightarrow> action | Inr a \<Rightarrow> a);
                            uri = (case action' of
                                     PdfDict kv \<Rightarrow> (case map_of kv ''/URI'' of None \<Rightarrow> PdfNone | Some v \<Rightarrow> v)
                                   | _ \<Rightarrow> PdfNone)
                        in if truthy uri
                           then Inr (Some (case uri of PdfStr s \<Rightarrow> s | _ \<Rightarrow> str_of L uri))
                           else Inr None)))"

text \<open>Lines 57 and 58: \<open>if url not in urls: urls.append(url)\<close>.\<close>

definition add_url :: "string \<Rightarrow> string list \<Rightarrow> string list" where
  "add_url url urls = (if url \<in> set urls then urls else urls @ [url])"

text \<open>
  The two loops. An exception ends the scan: the result is the list \<open>urls\<close> at that
  moment, with the exception that the handler of the function then logs.
\<close>

fun scan_annotations ::
  "library \<Rightarrow> pdf_obj list \<Rightarrow> string list \<Rightarrow> string list \<times> py_error option" where
  "scan_annotations L [] urls = (urls, None)"
| "scan_annotations L (annotation_ref # rest) urls =
     (case link_uri L annotation_ref of
        Inl e \<Rightarrow> (urls, Some e)
      | Inr None \<Rightarrow> scan_annotations L rest urls
      | Inr (Some url) \<Rightarrow> scan_annotations L rest (add_url url urls))"

definition annotation_refs :: "pdf_page \<Rightarrow> pdf_obj list" where
  "annotation_refs page =
     (let annotations = (case map_of (page_dict page) ''/Annots'' of None \<Rightarrow> PdfNone | Some v \<Rightarrow> v)
      in if \<not> truthy annotations then []
         else (case annotations of PdfArray xs \<Rightarrow> xs | _ \<Rightarrow> [annotations]))"

fun scan_pages ::
  "library \<Rightarrow> pdf_page list \<Rightarrow> string list \<Rightarrow> string list \<times> py_error option" where
  "scan_pages L [] urls = (urls, None)"
| "scan_pages L (page # pages) urls =
     (case scan_annotations L (annotation_refs page) urls of
        (urls', Some e) \<Rightarrow> (urls', Some e)
      | (urls', None) \<Rightarrow> scan_pages L pages urls')"

definition extract_urls_from_pdf :: "library \<Rightarrow> fs \<Rightarrow> string \<Rightarrow> string list" where
  "extract_urls_from_pdf L files file_path =
     (case files file_path of
        None \<Rightarrow> []
      | Some data \<Rightarrow>
          (case PdfReader L data of
             Inl e \<Rightarrow> []
           | Inr pages \<Rightarrow> fst (scan_pages L pages [])))"

definition docx_add_url :: "docx_rel \<Rightarrow> string list \<Rightarrow> string list" where
  "docx_add_url rel urls =
     (if str_in ''hyperlink'' (reltype rel)
      then
        let url = target_ref rel in
        if url \<noteq> [] \<and> url \<notin> set urls
        then (if \<not> prefix ''#'' url then urls @ [url] else urls)
        else urls
      else urls)"

definition extract_urls_from_docx :: "library \<Rightarrow> fs \<Rightarrow> string \<Rightarrow> string list" where
  "extract_urls_from_docx L files file_path =
     (case files file_path of
        None \<Rightarrow> []
      | Some data \<Rightarrow>
          (case Document L data of
             Inl e \<Rightarrow> []
           | Inr doc \<Rightarrow> fold docx_add_url (rels doc) []))"

text \<open>The statements that append the URL block, the same in both extractors.\<close>

definition append_urls :: "string \<Rightarrow> string list \<Rightarrow> string" where
  "append_urls text urls =
     (if urls \<noteq> []
      then fold (\<lambda>url text. text @ ''- '' @ url @ [CHR 0x0A])
             urls (text @ [CHR 0x0A, CHR 0x0A] @ ''EXTRACTED URLS/LINKS:'' @ [CHR 0x0A])
      else text)"

definition page_texts :: "pdf_page list \<Rightarrow> string list" where
  "page_texts pages =
     map (\<lambda>page. case extract_text page of Inl e \<Rightarrow> [] | Inr None \<Rightarrow> [] | Inr (Some t) \<Rightarrow> t) pages"

definition extract_text_from_pdf :: "library \<Rightarrow> fs \<Rightarrow> string \<Rightarrow> py_error + string" where
  "extract_text_from_pdf L files file_path =
     (case files file_path of
        None \<Rightarrow> Inl (FileNotFoundError file_path)
      | Some data \<Rightarrow>
          (case PdfReader L data of
             Inl e \<Rightarrow> Inl e
           | Inr pages \<Rightarrow>
               let text = py_join [CHR 0x0A] (page_texts pages);
                   urls = extract_urls_from_pdf L files file_path
               in Inr (append_urls text urls)))"

definition extract_text_from_docx :: "library \<Rightarrow> fs \<Rightarrow> string \<Rightarrow> py_error + string" where
  "extract_text_from_docx L files file_path =
     (case files file_path of
        None \<Rightarrow> Inl (LibraryError file_path)
      | Some data \<Rightarrow>
          (case Document L data of
             Inl e \<Rightarrow> Inl e
           | Inr doc \<Rightarrow>
               if None \<in> set (paragraphs doc) then Inl (TypeError ''join'')
               else
                 let text = py_join [CHR 0x0A] (map the (paragraphs doc));
                     urls = extract_urls_from_docx L files file_path
                 in Inr (append_urls text urls)))"

text \<open>
  \<open>os.remove\<close>: it raises on a missing file and where the library has it fail;
  otherwise the file is gone afterwards.
\<close>

definition os_remove :: "library \<Rightarrow> fs \<Rightarrow> string \<Rightarrow> py_error + fs" where
  "os_remove L files path =
     (if files path = None then Inl (FileNotFoundError path)
      else (case os_remove_fault L path of
              Some e \<Rightarrow> Inl e
            | None \<Rightarrow> Inr (files(path := None))))"

text \<open>
  The \<open>finally\<close> clause of \<open>extract_text_from_pdf_bytes\<close>: the file system that it leaves,
  given the value of \<open>tmp_path\<close> when it is reached.
\<close>

definition remove_tmp :: "library \<Rightarrow> fs \<Rightarrow> string option \<Rightarrow> fs" where
  "remove_tmp L files tmp_path =
     (case tmp_path of
        None \<Rightarrow> files
      | Some path \<Rightarrow>
          if path = [] then files
          else (case os_remove L files path of Inl e \<Rightarrow> files | Inr files' \<Rightarrow> files'))"

text \<open>
  \<open>tmp_name\<close> is the name that \<open>NamedTemporaryFile\<close> chooses. The function returns its
  outcome and the file system that it leaves. \<open>NamedTemporaryFile\<close> creates the file,
  empty, and with \<open>delete=False\<close> closing it does not remove it. \<open>tmp_path\<close> is \<open>None\<close>
  until the assignment that follows \<open>tmp.write\<close>, so an exception of \<open>NamedTemporaryFile\<close>
  or of \<open>tmp.write\<close> reaches the \<open>finally\<close> clause with \<open>tmp_path\<close> still \<open>None\<close>.
\<close>

definition extract_text_from_pdf_bytes ::
  "library \<Rightarrow> string \<Rightarrow> fs \<Rightarrow> bytes \<Rightarrow> (py_error + string) \<times> fs" where
  "extract_text_from_pdf_bytes L tmp_name files file_bytes =
     (case tmp_create_fault L of
        Some e \<Rightarrow> (Inl e, remove_tmp L files None)
      | None \<Rightarrow>
          let files0 = files(tmp_name \<mapsto> []) in
          (case tmp_write_fault L file_bytes of
             Some (e, written) \<Rightarrow> (Inl e, remove_tmp L (files0(tmp_name \<mapsto> written)) None)
           | None \<Rightarrow>
               let files1 = files0(tmp_name \<mapsto> file_bytes);
                   tmp_path = Some tmp_name
               in (case tmp_close_fault L of
                     Some e \<Rightarrow> (Inl e, remove_tmp L files1 tmp_path)
                   | None \<Rightarrow>
                       (extract_text_from_pdf L files1 tmp_name, remove_tmp L files1 tmp_path))))"

definition extract_text_from_docx_bytes :: "library \<Rightarrow> bytes \<Rightarrow> py_error + string" where
  "extract_text_from_docx_bytes L file_bytes =
     (case Document L file_bytes of
        Inl e \<Rightarrow> Inl e
      | Inr doc \<Rightarrow>
          Inr (py_join [CHR 0x0A] (map (\<lambda>t. case t of None \<Rightarrow> [] | Some s \<Rightarrow> s) (paragraphs doc))))"

text \<open>
  \<open>Path(filename).suffix\<close> of pathlib on POSIX: the final component of the path is the
  last part between slashes that is neither empty nor a single dot; its suffix starts
  at its last dot, provided that dot is neither its first nor its last character.
\<close>

fun split_on :: "char \<Rightarrow> string \<Rightarrow> string list" where
  "split_on sep [] = [[]]"
| "split_on sep (c # s) =
     (if c = sep then [] # split_on sep s
      else (case split_on sep s of [] \<Rightarrow> [[c]] | x # xs \<Rightarrow> (c # x) # xs))"

definition path_name :: "string \<Rightarrow> string" where
  "path_name path =
     (let parts = filter (\<lambda>x. x \<noteq> [] \<and> x \<noteq> ''.'') (split_on (CHR ''/'') path)
      in if parts = [] then [] else last parts)"

definition path_suffix :: "string \<Rightarrow> string" where
  "path_suffix path =
     (let name = path_name path;
          after = length (takeWhile (\<lambda>c. c \<noteq> CHR ''.'') (rev name))
      in if CHR ''.'' \<in> set name \<and> 0 < after \<and> Suc after < length name
         then drop (length name - Suc after) name
         else [])"

definition unsupported :: "string \<Rightarrow> py_error" where
  "unsupported extension =
     ValueError (''Unsupported file format: '' @ extension @ ''. Supported formats: .pdf, .docx, .doc'')"

definition extract_text_from_bytes ::
  "library \<Rightarrow> string \<Rightarrow> fs \<Rightarrow> bytes \<Rightarrow> string \<Rightarrow> (py_error + string) \<times> fs" where
  "extract_text_from_bytes L tmp_name files file_bytes filename =
     (let extension = lower (path_suffix filename) in
      if extension = ''.pdf'' then extract_text_from_pdf_bytes L tmp_name files file_bytes
      else if extension \<in> set [''.docx'', ''.doc'']
      then (extract_text_from_docx_bytes L file_bytes, files)
      else (Inl (unsupported extension), files))"

definition extract_text_from_file :: "library \<Rightarrow> fs \<Rightarrow> string \<Rightarrow> py_error + string" where
  "extract_text_from_file L files file_path =
     (if files file_path = None then Inl (FileNotFoundError (''File not found: '' @ file_path))
      else
        let extension = lower (path_suffix file_path) in
        if extension = ''.pdf'' then extract_text_from_pdf L files file_path
        else if extension \<in> set [''.docx'', ''.doc''] then extract_text_from_docx L files file_path
        else Inl (unsupported extension))"

text \<open>
  The specification's words for the URL list: every URL once, in the order of first
  discovery. \<open>discovered\<close> is the sequence of URLs that the annotations yield, one after
  the other with repetitions, up to the first annotation that raises.
\<close>

fun first_occurrences :: "'a list \<Rightarrow> 'a list" where
  "first_occurrences [] = []"
| "first_occurrences (x # xs) = x # removeAll x (first_occurrences xs)"

fun discovered :: "library \<Rightarrow> pdf_obj list \<Rightarrow> string list" where
  "discovered L [] = []"
| "discovered L (annotation_ref # rest) =
     (case link_uri L annotation_ref of
        Inl e \<Rightarrow> []
      | Inr None \<Rightarrow> discovered L rest
      | Inr (Some url) \<Rightarrow> url # discovered L rest)"

text \<open>
  The hyperlink targets of a Word document in the words of the specification: the
  target references of the relationships whose type denotes a hyperlink, in the order of
  the relationship table, without the empty ones and the anchors, which begin with \<open>#\<close>.
\<close>

definition hyperlink_targets :: "docx_document \<Rightarrow> string list" where
  "hyperlink_targets doc =
     filter (\<lambda>url. url \<noteq> [] \<and> \<not> prefix ''#'' url)
       (map target_ref (filter (\<lambda>rel. str_in ''hyperlink'' (reltype rel)) (rels doc)))"

text \<open>The URL block in the words of the specification.\<close>

definition url_block :: "string list \<Rightarrow> string" where
  "url_block urls =
     [CHR 0x0A, CHR 0x0A] @ ''EXTRACTED URLS/LINKS:'' @ [CHR 0x0A]
       @ concat (map (\<lambda>url. ''- '' @ url @ [CHR 0x0A]) urls)"

text \<open>
  A library, a file system and documents for the examples: a PDF of two pages whose
  first page links to \<open>u1\<close>, to \<open>u2\<close> and to \<open>u1\<close> again, and a Word document with one
  hyperlink and one anchor. Any other content is refused by the parsers.
\<close>

definition demo_link :: "string \<Rightarrow> pdf_obj" where
  "demo_link url =
     PdfDict [(''/Subtype'', PdfStr ''/Link''), (''/A'', PdfDict [(''/URI'', PdfStr url)])]"

definition demo_pages :: "pdf_page list" where
  "demo_pages =
     [\<lparr>extract_text = Inr (Some ''Jane Doe''),
       page_dict = [(''/Annots'',
         PdfArray [demo_link ''u1'', PdfIndirect (Some (demo_link ''u2'')), demo_link ''u1''])]\<rparr>,
      \<lparr>extract_text = Inl (LibraryError ''page''), page_dict = []\<rparr>]"

definition demo_docx :: docx_document where
  "demo_docx =
     \<lparr>paragraphs = [Some ''Jane Doe'', Some ''Engineer''],
      rels = [\<lparr>reltype = ''relationships/styles'', target_ref = ''styles.xml''\<rparr>,
              \<lparr>reltype = ''relationships/hyperlink'', target_ref = ''https://example.org/jane''\<rparr>,
              \<lparr>reltype = ''relationships/hyperlink'', target_ref = ''#top''\<rparr>]\<rparr>"

text \<open>
  Two more Word documents: one whose relationship table names a target twice, between
  a style sheet, an anchor and a hyperlink without target, and one without hyperlinks.
\<close>

definition demo_docx_links :: docx_document where
  "demo_docx_links =
     \<lparr>paragraphs = [Some ''Links''],
      rels = [\<lparr>reltype = ''relationships/hyperlink'', target_ref = ''https://a.example''\<rparr>,
              \<lparr>reltype = ''relationships/styles'', target_ref = ''https://styles.example''\<rparr>,
              \<lparr>reltype = ''relationships/hyperlink'', target_ref = ''#top''\<rparr>,
              \<lparr>reltype = ''relationships/hyperlink'', target_ref = ''https://b.example''\<rparr>,
              \<lparr>reltype = ''relationships/hyperlink'', target_ref = []\<rparr>,
              \<lparr>reltype = ''relationships/hyperlink'', target_ref = ''https://a.example''\<rparr>]\<rparr>"

definition demo_docx_plain :: docx_document where
  "demo_docx_plain =
     \<lparr>paragraphs = [Some ''Plain'', Some ''text''],
      rels = [\<lparr>reltype = ''relationships/styles'', target_ref = ''styles.xml''\<rparr>]\<rparr>"

definition demo_pdf_reader :: "bytes \<Rightarrow> py_error + pdf_page list" where
  "demo_pdf_reader data =
     (if data = ''%PDF'' then Inr demo_pages else Inl (LibraryError ''EOF marker not found''))"

definition demo_document :: "bytes \<Rightarrow> py_error + docx_document" where
  "demo_document data =
     (if data = ''PK'' then Inr demo_docx
      else if data = ''PK links'' then Inr demo_docx_links
      else if data = ''PK plain'' then Inr demo_docx_plain
      else Inl (LibraryError ''not a zip file''))"

definition demo_str_of :: "pdf_obj \<Rightarrow> string" where
  "demo_str_of obj = ''object''"

definition demo_library :: library where
  "demo_library =
     \<lparr>PdfReader = demo_pdf_reader, Document = demo_document, str_of = demo_str_of,
      tmp_create_fault = None, tmp_write_fault = (\<lambda>data. None), tmp_close_fault = None,
      os_remove_fault = (\<lambda>path. None)\<rparr>"



definition demo_files :: fs where
  "demo_files path =
     (if path = ''cv.pdf'' then Some ''%PDF''
      else if path = ''cv.docx'' then Some ''PK''
      else if path = ''notes.TXT'' then Some ''hello''
      else if path = ''links.docx'' then Some ''PK links''
      else if path = ''plain.docx'' then Some ''PK plain''
      else None)"

text \<open>
  The known terms in the words of the specification: every canonical name and every
  variant of the synonym table.
\<close>

definition known_terms :: "string set" where
  "known_terms = fst ` set SKILL_SYNONYMS \<union> (\<Union>(c, V) \<in> set SKILL_SYNONYMS. set V)"

text \<open>A scorer for the examples: 100 for equal strings, 90 for a prefix, 10 otherwise.\<close>

definition demo_scorer :: scorer where
  "demo_scorer query choice =
     Inr (if query = choice then 100 else if prefix query choice then 90 else 10)"

section \<open>main.py: ResumeProcessor\<close>

text \<open>
  The values that the dictionaries of the processor hold: those of JSON, with the
  floats of Python as a type parameter. A dictionary is the list of its items in
  insertion order, with strings as keys.
\<close>

datatype 'f pyval =
    PNone
  | PBool bool
  | PInt int
  | PFloat 'f
  | PStr string
  | PList "'f pyval list"
  | PDict "(string \<times> 'f pyval) list"

type_synonym 'f dict = "(string \<times> 'f pyval) list"

definition object_keys :: "string list" where
  "object_keys =
     [''project_match'', ''education_match'', ''experience_match'', ''skill_match'',
      ''cultural_fit'']"

text \<open>The body of the loop over \<open>object_keys\<close> in \<open>_normalize_screening_result\<close>.\<close>

definition normalize_key :: "string \<Rightarrow> 'f dict \<Rightarrow> 'f dict" where
  "normalize_key key result =
     (case map_of result key of
        None \<Rightarrow> result
      | Some val \<Rightarrow>
          (case val of
             PStr s \<Rightarrow> AList.update key (PDict [(''text'', val)]) result
           | PList items \<Rightarrow> AList.update key (PDict [(''items'', val)]) result
           | PNone \<Rightarrow> AList.update key (PDict []) result
           | _ \<Rightarrow> result))"

text \<open>
  The body of the \<open>try\<close> statement: \<open>float_of\<close> is \<open>float\<close> on strings, which returns a
  float or raises.
\<close>

definition coerce_overall_score ::
  "(string \<Rightarrow> py_error + 'f) \<Rightarrow> 'f dict \<Rightarrow> py_error + 'f dict" where
  "coerce_overall_score float_of result =
     (case map_of result ''overall_score'' of
        None \<Rightarrow> Inr result
      | Some val \<Rightarrow>
          (case val of
             PStr s \<Rightarrow>
               (case float_of s of
                  Inl e \<Rightarrow> Inl e
                | Inr x \<Rightarrow> Inr (AList.update ''overall_score'' (PFloat x) result))
           | _ \<Rightarrow> Inr result))"

text \<open>
  \<open>_normalize_screening_result\<close>: a value that is not a dictionary is returned as it
  is; the \<open>except\<close> clause removes the key when the body of the \<open>try\<close> statement raises.
\<close>

definition normalize_screening_result ::
  "(string \<Rightarrow> py_error + 'f) \<Rightarrow> 'f pyval \<Rightarrow> py_error + 'f pyval" where
  "normalize_screening_result float_of result =
     (case result of
        PDict d \<Rightarrow>
          let d1 = fold normalize_key object_keys d in
          if map_of d1 ''overall_score'' \<noteq> None
          then (case coerce_overall_score float_of d1 of
                  Inl e \<Rightarrow> Inr (PDict (AList.delete ''overall_score'' d1))
                | Inr d2 \<Rightarrow> Inr (PDict d2))
          else Inr (PDict d1)
      | _ \<Rightarrow> Inr result)"

text \<open>
  What the screener returns: an object of its result class, which has the attribute
  \<open>overall_score\<close> and is given by what \<open>model_dump(exclude_none=True)\<close> returns; a plain
  dictionary, which has no attribute \<open>overall_score\<close>; or another object, given by
  whether it has that attribute and by what \<open>dict\<close> makes of it.
\<close>

datatype 'f screening =
    Screening_model "'f dict"
  | Screening_dict "'f dict"
  | Screening_other bool "py_error + 'f dict"

text \<open>
  The dictionaries that the processor shares with its callers live in a store, at
  addresses.
\<close>

type_synonym addr = nat
type_synonym 'f heap = "addr \<Rightarrow> 'f dict"

text \<open>
  The processor with what it calls outside the repository: the libraries of the
  extractor, the parser with \<open>model_dump(exclude_none=True)\<close> applied to its result, the
  screener, the client of the optimizer, the iteration order of the sets, the scorer
  \<open>fuzz.token_set_ratio\<close> and \<open>float\<close> on strings. The screener is given the resume by
  reference, as an address of the store, and returns the store that it leaves with its
  outcome. \<open>generate_suggestions\<close> of \<open>resume_optimizer.py\<close> only formats the resume into
  the prompt of its client, so the optimizer is given the resume by value.
\<close>

record 'f processor =
  lib :: library
  parser :: "string \<Rightarrow> py_error + 'f dict"
  screener ::
    "'f heap \<Rightarrow> addr \<Rightarrow> string \<Rightarrow> string \<Rightarrow> 'f pyval \<Rightarrow> (py_error + 'f screening) \<times> 'f heap"
  optimizer :: "'f dict \<Rightarrow> string \<Rightarrow> string \<Rightarrow> 'f pyval \<Rightarrow> py_error + 'f pyval"
  set_order :: "string list \<Rightarrow> string list"
  token_set_ratio :: scorer
  py_float :: "string \<Rightarrow> py_error + 'f"

text \<open>\<open>parsed_resume.get("skills", [])\<close>.\<close>

definition get_skills :: "'f dict \<Rightarrow> 'f pyval" where
  "get_skills parsed_resume =
     (case map_of parsed_resume ''skills'' of None \<Rightarrow> PList [] | Some val \<Rightarrow> val)"

fun is_str :: "'f pyval \<Rightarrow> bool" where
  "is_str (PStr s) = True"
| "is_str v = False"

fun str_val :: "'f pyval \<Rightarrow> string" where
  "str_val (PStr s) = s"
| "str_val v = []"

text \<open>
  The strings that \<open>[s.lower().strip() for s in skills]\<close> goes through: the elements of a
  list, which must be strings, the characters of a string, the keys of a dictionary;
  the other values cannot be iterated.
\<close>

definition iter_strings :: "'f pyval \<Rightarrow> py_error + string list" where
  "iter_strings skills =
     (case skills of
        PList xs \<Rightarrow> if list_all is_str xs then Inr (map str_val xs) else Inl (AttributeError ''lower'')
      | PStr s \<Rightarrow> Inr (map (\<lambda>c. [c]) s)
      | PDict d \<Rightarrow> Inr (map fst d)
      | _ \<Rightarrow> Inl (TypeError ''object is not iterable''))"

definition str_list :: "string list \<Rightarrow> 'f pyval" where
  "str_list xs = PList (map PStr xs)"

text \<open>
  Lines 327 to 340 of \<open>screen_resume\<close>: the dictionary made of what the screener has
  returned, or the \<open>AttributeError\<close> of the access to \<open>overall_score\<close> in the logging call.
\<close>

definition result_dict_of :: "'f screening \<Rightarrow> py_error + 'f dict" where
  "result_dict_of screening_result =
     (case screening_result of
        Screening_model dumped \<Rightarrow> Inr dumped
      | Screening_dict d \<Rightarrow> Inl (AttributeError ''overall_score'')
      | Screening_other has_score converted \<Rightarrow>
          if \<not> has_score then Inl (AttributeError ''overall_score'')
          else (case converted of
                  Inl e \<Rightarrow> Inr [(''error'', PStr ''invalid screening result format'')]
                | Inr d \<Rightarrow> Inr d))"

text \<open>
  \<open>screen_resume\<close> on the resume at address \<open>parsed_resume\<close>: it returns its outcome and the
  store that it leaves. The two assignments to \<open>parsed_resume["skills"]\<close> come before
  the call of the screener.
\<close>

definition screen_resume ::
  "'f processor \<Rightarrow> 'f heap \<Rightarrow> addr \<Rightarrow> string \<Rightarrow> string \<Rightarrow> 'f pyval
     \<Rightarrow> (py_error + 'f pyval) \<times> 'f heap" where
  "screen_resume P h parsed_resume job_title job_description weights =
     (case iter_strings (get_skills (h parsed_resume)) of
        Inl e \<Rightarrow> (Inl e, h)
      | Inr skills \<Rightarrow>
          let normalized = normalize_skills (set_order P) skills;
              h1 = h(parsed_resume := AList.update ''skills'' (str_list normalized) (h parsed_resume));
              expanded = fuzzy_expand_skills (set_order P) (token_set_ratio P) normalized
                           job_description default_threshold;
              h2 = h1(parsed_resume := AList.update ''skills'' (str_list expanded) (h1 parsed_resume))
          in (case screener P h2 parsed_resume job_title job_description weights of
                (Inl e, h3) \<Rightarrow> (Inl e, h3)
              | (Inr screening_result, h3) \<Rightarrow>
                  (case result_dict_of screening_result of
                     Inl e \<Rightarrow> (Inl e, h3)
                   | Inr result_dict \<Rightarrow>
                       (normalize_screening_result (py_float P) (PDict result_dict), h3))))"

definition parse_resume_from_path :: "'f processor \<Rightarrow> fs \<Rightarrow> string \<Rightarrow> py_error + 'f dict" where
  "parse_resume_from_path P files file_path =
     (case extract_text_from_file (lib P) files file_path of
        Inl e \<Rightarrow> Inl e
      | Inr resume_text \<Rightarrow> parser P resume_text)"

definition parse_resume_from_bytes ::
  "'f processor \<Rightarrow> string \<Rightarrow> fs \<Rightarrow> bytes \<Rightarrow> string \<Rightarrow> (py_error + 'f dict) \<times> fs" where
  "parse_resume_from_bytes P tmp_name files file_bytes filename =
     (case extract_text_from_bytes (lib P) tmp_name files file_bytes filename of
        (Inl e, files') \<Rightarrow> (Inl e, files')
      | (Inr resume_text, files') \<Rightarrow> (parser P resume_text, files'))"

text \<open>
  The dictionary that the workflows return: \<open>parsed\<close> is the address of the parsed resume,
  the same dictionary that was given to \<open>screen_resume\<close>.
\<close>

record 'f workflow_result =
  parsed :: addr
  screened :: "'f pyval"
  optimization :: "'f pyval"

text \<open>
  The workflows. \<open>new_addr\<close> is the address at which the dictionary that the parser
  returns is allocated. \<open>process_resume_from_path\<close> returns the suggestions of the
  optimizer as \<open>model_dump(exclude_none=True)\<close> gives them and \<open>process_resume_from_bytes\<close>
  the object itself; the model does not tell the two apart.
\<close>

definition process_resume_from_path ::
  "'f processor \<Rightarrow> fs \<Rightarrow> 'f heap \<Rightarrow> addr \<Rightarrow> string \<Rightarrow> string \<Rightarrow> string \<Rightarrow> 'f pyval
     \<Rightarrow> (py_error + 'f workflow_result) \<times> 'f heap" where
  "process_resume_from_path P files h new_addr file_path job_title job_description weights =
     (case parse_resume_from_path P files file_path of
        Inl e \<Rightarrow> (Inl e, h)
      | Inr d \<Rightarrow>
          (case screen_resume P (h(new_addr := d)) new_addr job_title job_description weights of
             (Inl e, h') \<Rightarrow> (Inl e, h')
           | (Inr screened_result, h') \<Rightarrow>
               (case optimizer P (h' new_addr) job_title job_description screened_result of
                  Inl e \<Rightarrow> (Inl e, h')
                | Inr suggestions \<Rightarrow>
                    (Inr \<lparr>parsed = new_addr, screened = screened_result,
                          optimization = suggestions\<rparr>, h'))))"

definition process_resume_from_bytes ::
  "'f processor \<Rightarrow> string \<Rightarrow> fs \<Rightarrow> 'f heap \<Rightarrow> addr \<Rightarrow> bytes \<Rightarrow> string \<Rightarrow> string \<Rightarrow> string
     \<Rightarrow> 'f pyval \<Rightarrow> (py_error + 'f workflow_result) \<times> 'f heap \<times> fs" where
  "process_resume_from_bytes P tmp_name files h new_addr file_bytes filename job_title
       job_description weights =
     (case parse_resume_from_bytes P tmp_name files file_bytes filename of
        (Inl e, files') \<Rightarrow> (Inl e, h, files')
      | (Inr d, files') \<Rightarrow>
          (case screen_resume P (h(new_addr := d)) new_addr job_title job_description weights of
             (Inl e, h') \<Rightarrow> (Inl e, h', files')
           | (Inr screened_result, h') \<Rightarrow>
               (case optimizer P (h' new_addr) job_title job_description screened_result of
                  Inl e \<Rightarrow> (Inl e, h', files')
                | Inr suggestions \<Rightarrow>
                    (Inr \<lparr>parsed = new_addr, screened = screened_result,
                          optimization = suggestions\<rparr>, h', files'))))"

text \<open>
  The wrapping of a named field in the words of the specification: a string becomes an
  object with the field \<open>text\<close>, a list an object with the field \<open>items\<close>, null the empty
  object, and any other value is left as it is.
\<close>

fun wrapped :: "'f pyval \<Rightarrow> 'f pyval" where
  "wrapped (PStr s) = PDict [(''text'', PStr s)]"
| "wrapped (PList items) = PDict [(''items'', PList items)]"
| "wrapped PNone = PDict []"
| "wrapped (PBool b) = PBool b"
| "wrapped (PInt n) = PInt n"
| "wrapped (PFloat x) = PFloat x"
| "wrapped (PDict d) = PDict d"

text \<open>
  The normalized and expanded skill list in the words of the specification: the skills
  are normalized, then expanded against the job description with the default threshold.
\<close>

definition reconciled_skills :: "'f processor \<Rightarrow> string list \<Rightarrow> string \<Rightarrow> string list" where
  "reconciled_skills P skills job_description =
     fuzzy_expand_skills (set_order P) (token_set_ratio P)
       (normalize_skills (set_order P) skills) job_description default_threshold"

text \<open>
  A processor for the examples: its parser finds the skills \<open>MySQL\<close> and \<open>Java\<close>, its
  screener returns an object with a score and a match given as strings and leaves the
  store as it is, and its \<open>float\<close> reads two numerals. The screener of the second
  processor raises.
\<close>

definition demo_float :: "string \<Rightarrow> py_error + real" where
  "demo_float s =
     (if s = ''7.5'' then Inr 7.5
      else if s = ''8'' then Inr 8
      else Inl (ValueError (''could not convert string to float: '' @ s)))"

definition demo_resume :: "real dict" where
  "demo_resume = [(''name'', PStr ''Jane Doe''), (''skills'', PList [PStr ''MySQL'', PStr '' Java ''])]"

definition demo_screening :: "real dict" where
  "demo_screening = [(''overall_score'', PStr ''7.5''), (''skill_match'', PStr ''strong fit'')]"

definition demo_processor :: "real processor" where
  "demo_processor =
     \<lparr>lib = demo_library,
      parser = (\<lambda>resume_text. Inr demo_resume),
      screener = (\<lambda>h resume job_title job_description weights.
                    (Inr (Screening_model demo_screening), h)),
      optimizer = (\<lambda>resume job_title job_description screening_result. Inr (PDict [])),
      set_order = (\<lambda>xs. xs),
      token_set_ratio = demo_scorer,
      py_float = demo_float\<rparr>"

definition failing_processor :: "real processor" where
  "failing_processor =
     demo_processor\<lparr>screener :=
       (\<lambda>h resume job_title job_description weights. (Inl (LibraryError ''rate limit''), h))\<rparr>"

text \<open>
  A screening result for the examples, with a string, null, a list and an object among
  the named fields, and \<open>experience_match\<close> absent.
\<close>

definition demo_shapes :: "real dict" where
  "demo_shapes =
     [(''skill_match'', PStr ''strong fit''),
      (''cultural_fit'', PNone),
      (''project_match'', PList [PStr ''crawler'', PStr ''compiler'']),
      (''education_match'', PDict [(''degree'', PStr ''BSc'')]),
      (''summary'', PStr ''good'')]"

definition demo_heap :: "real heap" where
  "demo_heap a = (if a = 1 then demo_resume else [])"

section \<open>Properties of the skill normalizer\<close>

lemma set_set_add: "set (set_add x s) = insert x (set s)"
  by (auto simp: set_add_def)

lemma distinct_set_add: "distinct s \<Longrightarrow> distinct (set_add x s)"
  by (simp add: set_add_def)

lemma set_fold_set_add:
  "set (fold (\<lambda>x acc. set_add (f x) acc) xs acc) = f ` set xs \<union> set acc"
  by (induction xs arbitrary: acc) (auto simp: set_set_add)

lemma distinct_fold_set_add:
  "distinct acc \<Longrightarrow> distinct (fold (\<lambda>x acc. set_add (f x) acc) xs acc)"
  by (induction xs arbitrary: acc) (auto simp: distinct_set_add)

lemma set_py_set: "set (py_set xs) = set xs"
  using set_fold_set_add [of "\<lambda>x. x" xs "[]"] by (simp add: py_set_def)

lemma distinct_py_set: "distinct (py_set xs)"
  using distinct_fold_set_add [of "[]" "\<lambda>x. x" xs] by (simp add: py_set_def)

lemma set_set_union: "set (set_union a b) = set a \<union> set b"
  using set_fold_set_add [of "\<lambda>x. x" b a] by (auto simp: set_union_def)

text \<open>What the theorems assume of the iteration order of a set: it rearranges the elements.\<close>

lemma rearr_set: "(\<And>xs. mset (order xs) = mset xs) \<Longrightarrow> set (order xs) = set xs"
  by (metis set_mset_mset)

lemma rearr_distinct:
  "(\<And>xs. mset (order xs) = mset xs) \<Longrightarrow> distinct (order xs) = distinct xs"
  by (metis mset_eq_imp_distinct_iff)

lemma rearr_single: "(\<And>xs. mset (order xs) = mset xs) \<Longrightarrow> order [x] = [x]"
  by (metis mset_single_iff_right mset.simps(1) mset.simps(2))

lemma lookup_canonical_None:
  "lookup_canonical T t = None \<longleftrightarrow> (\<forall>(c, V) \<in> set T. t \<noteq> c \<and> t \<notin> set V)"
  by (induction T t rule: lookup_canonical.induct) auto

lemma lookup_canonical_Some:
  "lookup_canonical T t = Some c \<Longrightarrow> \<exists>V. (c, V) \<in> set T \<and> (t = c \<or> t \<in> set V)"
  by (induction T t rule: lookup_canonical.induct) (auto split: if_splits)

lemma table_check:
  "list_all (\<lambda>(c, V). canonical_of c = c \<and> strip (lower c) = c \<and>
      list_all (\<lambda>v. canonical_of v = c \<and> strip (lower v) = v) V) SKILL_SYNONYMS"
  by code_simp

lemma table_entry:
  assumes "(c, V) \<in> set SKILL_SYNONYMS"
  shows "canonical_of c = c" "strip (lower c) = c"
    "v \<in> set V \<Longrightarrow> canonical_of v = c" "v \<in> set V \<Longrightarrow> strip (lower v) = v"
  using assms table_check by (auto simp: list_all_iff)

lemma canonical_of_table:
  "(c, V) \<in> set SKILL_SYNONYMS \<Longrightarrow> t = c \<or> t \<in> set V \<Longrightarrow> canonical_of t = c"
  using table_entry(1,3) by blast

lemma canonical_of_unknown:
  "\<forall>(c, V) \<in> set SKILL_SYNONYMS. t \<noteq> c \<and> t \<notin> set V \<Longrightarrow> canonical_of t = t"
  by (simp add: canonical_of_def lookup_canonical_None [symmetric])

text \<open>Every character is checked in turn.\<close>

lemma char_check:
  "list_all (\<lambda>c. lower_char (lower_char c) = lower_char c \<and> is_space (lower_char c) = is_space c)
     Enum.enum"
  by code_simp

lemma lower_char_idem: "lower_char (lower_char c) = lower_char c"
  using char_check by (simp add: list_all_iff UNIV_enum [symmetric])

lemma lower_char_space: "is_space (lower_char c) = is_space c"
  using char_check by (simp add: list_all_iff UNIV_enum [symmetric])

lemma lower_idem: "lower (lower s) = lower s"
  by (simp add: lower_def lower_char_idem)

lemma lower_strip: "lower (strip s) = strip (lower s)"
proof -
  have c: "is_space \<circ> lower_char = is_space"
    by (rule ext) (simp add: lower_char_space)
  show ?thesis
    by (simp add: lower_def strip_def dropWhile_map rev_map c)
qed

lemma strip_idem: "strip (strip s) = strip s"
proof -
  define y where "y = dropWhile is_space s"
  define z where "z = dropWhile is_space (rev y)"
  have a: "dropWhile is_space (rev z) = rev z"
  proof (cases "z = []")
    case True
    then show ?thesis by simp
  next
    case False
    then obtain x where x: "x \<in> set (rev y)" "\<not> is_space x"
      unfolding z_def by (metis dropWhile_eq_Nil_conv)
    then have "last z = last (rev y)"
      unfolding z_def by (rule dropWhile_last)
    moreover have "y \<noteq> []" using x by auto
    ultimately have "last z = hd y" by (simp add: last_rev)
    moreover have "\<not> is_space (hd y)"
      using \<open>y \<noteq> []\<close> unfolding y_def by (rule hd_dropWhile)
    ultimately have "\<not> is_space (hd (rev z))"
      using False by (simp add: hd_rev)
    then show ?thesis by (simp add: dropWhile_eq_self_iff)
  qed
  have b: "dropWhile is_space z = z"
    unfolding z_def by simp
  have "strip (rev z) = rev z"
    by (simp add: strip_def a b)
  then show ?thesis
    by (simp add: strip_def y_def z_def)
qed

lemma strip_lower_idem: "strip (lower (strip (lower s))) = strip (lower s)"
  by (simp add: lower_strip lower_idem strip_idem)

lemma canonical_fixed:
  "(c, V) \<in> set SKILL_SYNONYMS \<Longrightarrow> strip (lower c) = c"
  by (rule table_entry(2))

lemma set_normalize_skills:
  assumes "\<And>xs. mset (order xs) = mset xs"
  shows "set (normalize_skills order skills) = (\<lambda>s. canonical_of (strip (lower s))) ` set skills"
  using rearr_set [OF assms]
  by (simp add: normalize_skills_def Let_def set_fold_set_add image_image)

lemma distinct_normalize_skills:
  assumes "\<And>xs. mset (order xs) = mset xs"
  shows "distinct (normalize_skills order skills)"
  using rearr_distinct [OF assms]
  by (simp add: normalize_skills_def Let_def distinct_fold_set_add)

lemma normalize_single:
  assumes "\<And>xs. mset (order xs) = mset xs"
  shows "normalize_skills order [s] = [canonical_of (strip (lower s))]"
  using rearr_single [OF assms]
  by (simp add: normalize_skills_def Let_def set_add_def)

lemma normalize_step_idem:
  "canonical_of (strip (lower (canonical_of (strip (lower s))))) = canonical_of (strip (lower s))"
proof (cases "lookup_canonical SKILL_SYNONYMS (strip (lower s))")
  case None
  then show ?thesis by (simp add: canonical_of_def strip_lower_idem)
next
  case (Some c)
  then obtain V where cV: "(c, V) \<in> set SKILL_SYNONYMS"
    using lookup_canonical_Some by blast
  have "canonical_of c = c"
    using canonical_of_table [OF cV, of c] by simp
  with Some cV show ?thesis
    by (simp add: canonical_of_def [of "strip (lower s)"] canonical_fixed)
qed

lemma demo_normalized:
  "(\<lambda>s. canonical_of (strip (lower s))) ` set ['' MySQL'', ''Rust '', ''SQL'']
      = {''sql'', ''rust''}"
  by code_simp

text \<open>Beyond ASCII: a no-break space is trimmed and a capital E with acute accent lowered.\<close>

lemma latin1_normalized:
  "normalize_skills (\<lambda>xs. xs) [''MySQL'' @ [CHR 0xA0], [CHR 0x85] @ ''Caf'' @ [CHR 0xC9], ''caf'' @ [CHR 0xE9]]
     = [''sql'', ''caf'' @ [CHR 0xE9]]"
  by code_simp

lemma demo_entry: "(''nosql'', [''mongodb'', ''cassandra'', ''dynamodb'', ''couchdb'']) \<in> set SKILL_SYNONYMS"
  by code_simp


text \<open>
  Claim C5. Given any iteration order of the result set, \<open>normalize_skills\<close> returns,
  without repetition, exactly the images of the entries under: lowercase, trim, then
  replace by the canonical name of the first table entry whose canonical name or
  variant list contains the token, or keep the token when no entry does. Every
  variant of the table normalizes to its canonical name and every canonical name to
  itself.
\<close>

theorem normalize_skills_spec:
  assumes "\<And>xs. mset (order xs) = mset xs"
  shows "set (normalize_skills order skills) = (\<lambda>s. canonical_of (strip (lower s))) ` set skills
    \<and> distinct (normalize_skills order skills)
    \<and> (\<forall>c V t. (c, V) \<in> set SKILL_SYNONYMS \<and> (t = c \<or> t \<in> set V) \<longrightarrow> canonical_of t = c)
    \<and> (\<forall>t. (\<forall>(c, V) \<in> set SKILL_SYNONYMS. t \<noteq> c \<and> t \<notin> set V) \<longrightarrow> canonical_of t = t)
    \<and> (\<forall>c V v. (c, V) \<in> set SKILL_SYNONYMS \<and> v \<in> set V \<longrightarrow>
          normalize_skills order [v] = [c] \<and> normalize_skills order [c] = [c])"
proof (intro conjI allI impI)
  show "set (normalize_skills order skills) = (\<lambda>s. canonical_of (strip (lower s))) ` set skills"
    by (rule set_normalize_skills [OF assms])
  show "distinct (normalize_skills order skills)"
    by (rule distinct_normalize_skills [OF assms])
  show "canonical_of t = c" if "(c, V) \<in> set SKILL_SYNONYMS \<and> (t = c \<or> t \<in> set V)" for c V t
    using that canonical_of_table by blast
  show "canonical_of t = t" if "\<forall>(c, V) \<in> set SKILL_SYNONYMS. t \<noteq> c \<and> t \<notin> set V" for t
    using that by (rule canonical_of_unknown)
  show "normalize_skills order [v] = [c]"
    if "(c, V) \<in> set SKILL_SYNONYMS \<and> v \<in> set V" for c V v
    using that table_entry(3,4) [of c V v] by (simp add: normalize_single [OF assms])
  show "normalize_skills order [c] = [c]"
    if "(c, V) \<in> set SKILL_SYNONYMS \<and> v \<in> set V" for c V v
    using that table_entry(1,2) [of c V] by (simp add: normalize_single [OF assms])
qed

theorem normalize_skills_spec_witness:
  "mset (rev [''a'', ''b'']) = mset [''a'', ''b'']
   \<and> set (normalize_skills rev ['' MySQL'', ''Rust '', ''SQL'']) = {''sql'', ''rust''}
   \<and> distinct (normalize_skills rev ['' MySQL'', ''Rust '', ''SQL''])
   \<and> normalize_skills rev [''mongodb''] = [''nosql'']"
proof -
  have perm: "\<And>xs :: string list. mset (rev xs) = mset xs" by simp
  note T = normalize_skills_spec [OF perm, of "['' MySQL'', ''Rust '', ''SQL'']"]
  have a: "set (normalize_skills rev ['' MySQL'', ''Rust '', ''SQL'']) = {''sql'', ''rust''}"
    using T [THEN conjunct1] demo_normalized by (rule trans)
  have b: "distinct (normalize_skills rev ['' MySQL'', ''Rust '', ''SQL''])"
    by (rule T [THEN conjunct2, THEN conjunct1])
  have c: "normalize_skills rev [''mongodb''] = [''nosql'']"
    using T [THEN conjunct2, THEN conjunct2, THEN conjunct2, THEN conjunct2, rule_format,
        of "''nosql''" "[''mongodb'', ''cassandra'', ''dynamodb'', ''couchdb'']" "''mongodb''"]
      demo_entry
    by simp
  show ?thesis using perm a b c by (intro conjI)
qed

text \<open>
  Claim C9. Normalizing the result of a normalization gives the same set of skills as
  normalizing once, whatever the iteration order of the sets.
\<close>

theorem normalize_skills_idempotent:
  assumes "\<And>xs. mset (order xs) = mset xs"
  shows "set (normalize_skills order (normalize_skills order S)) = set (normalize_skills order S)"
  by (simp add: set_normalize_skills [OF assms] image_image normalize_step_idem)

theorem normalize_skills_idempotent_witness:
  "mset (rev [''a'', ''b'']) = mset [''a'', ''b'']
   \<and> set (normalize_skills rev (normalize_skills rev ['' MySQL'', ''Rust '', ''SQL'']))
     = set (normalize_skills rev ['' MySQL'', ''Rust '', ''SQL''])"
proof -
  have perm: "\<And>xs :: string list. mset (rev xs) = mset xs" by simp
  show ?thesis
    using perm normalize_skills_idempotent [OF perm, of "['' MySQL'', ''Rust '', ''SQL'']"]
    by (intro conjI)
qed

section \<open>Properties of the implied-skill expander\<close>

lemma set_all_known: "set all_known = known_terms"
  by (auto simp: all_known_def known_terms_def set_set_union set_py_set)

lemma set_jd_terms_of:
  assumes "\<And>xs. mset (order xs) = mset xs"
  shows "set (jd_terms_of order jd) = {t \<in> known_terms. str_in t (lower jd)}"
  using rearr_set [OF assms] by (auto simp: jd_terms_of_def set_all_known)

lemma extract_loop_best:
  "extract_loop sc q cs i best = Inr (Some (m, s, k)) \<Longrightarrow>
     (\<forall>c \<in> set cs. \<exists>s'. sc q c = Inr s' \<and> s' \<le> s)
     \<and> (\<forall>m0 s0 k0. best = Some (m0, s0, k0) \<longrightarrow> s0 \<le> s)
     \<and> (best = Some (m, s, k) \<or> (m \<in> set cs \<and> sc q m = Inr s))"
proof (induction cs arbitrary: i best)
  case Nil
  then show ?case by simp
next
  case (Cons c cs)
  from Cons.prems obtain sc0 where sc0: "sc q c = Inr sc0"
    by (cases "sc q c") auto
  let ?b = "case best of None \<Rightarrow> Some (c, sc0, i)
             | Some (m, s, k) \<Rightarrow> if s < sc0 then Some (c, sc0, i) else best"
  from Cons.prems sc0 have run: "extract_loop sc q cs (Suc i) ?b = Inr (Some (m, s, k))"
    by simp
  note ih = Cons.IH [OF run]
  show ?case
  proof (cases best)
    case None
    with ih sc0 show ?thesis by auto
  next
    case (Some b)
    obtain m0 s0 k0 where b: "b = (m0, s0, k0)" by (cases b) auto
    with ih sc0 Some show ?thesis by (auto split: if_splits)
  qed
qed

lemma extract_loop_total:
  "(\<forall>c \<in> set cs. \<exists>v. sc q c = Inr v) \<Longrightarrow> best \<noteq> None \<or> cs \<noteq> [] \<Longrightarrow>
     \<exists>r. extract_loop sc q cs i best = Inr (Some r)"
proof (induction cs arbitrary: i best)
  case Nil
  then show ?case by auto
next
  case (Cons c cs)
  then obtain v where v: "sc q c = Inr v" by auto
  have "(case best of None \<Rightarrow> Some (c, v, i)
             | Some (m, s, k) \<Rightarrow> if s < v then Some (c, v, i) else best) \<noteq> None"
    by (auto split: option.splits)
  with Cons v show ?case by simp
qed

lemma extractOne_best:
  "extractOne sc q cs = Inr (Some (m, s, k)) \<Longrightarrow>
     m \<in> set cs \<and> sc q m = Inr s \<and> (\<forall>c \<in> set cs. \<exists>s'. sc q c = Inr s' \<and> s' \<le> s)"
  unfolding extractOne_def using extract_loop_best [of sc q cs 0 None m s k] by simp

lemma extractOne_total:
  "(\<forall>c \<in> set cs. \<exists>v. sc q c = Inr v) \<Longrightarrow> cs \<noteq> [] \<Longrightarrow>
     \<exists>m s k. extractOne sc q cs = Inr (Some (m, s, k))"
  unfolding extractOne_def using extract_loop_total [of cs sc q None 0] by auto

lemma set_fold_match_skill:
  "set (fold (match_skill sc J t) skills acc) =
     set acc \<union> {m. \<exists>s \<in> set skills. \<exists>score k.
        extractOne sc s J = Inr (Some (m, score, k)) \<and> t \<le> score}"
proof (induction skills arbitrary: acc)
  case Nil
  then show ?case by simp
next
  case (Cons s skills)
  have step: "set (match_skill sc J t s acc) =
      set acc \<union> {m. \<exists>score k. extractOne sc s J = Inr (Some (m, score, k)) \<and> t \<le> score}"
    by (auto simp: match_skill_def split: sum.splits option.splits)
  show ?case
    unfolding fold_simps Cons.IH step by auto
qed

lemma demo_jd_terms: "jd_terms_of rev ''JavaScript developer'' = [''javascript'']"
  by code_simp

lemma demo_extract:
  "extractOne demo_scorer ''java'' [''javascript''] = Inr (Some (''javascript'', 90, 0))"
  by (simp add: extractOne_def demo_scorer_def)

text \<open>
  Claim C3. Given any iteration order of the sets: when the skills or the job
  description are empty, or no known term occurs in the lowercased job description,
  \<open>fuzzy_expand_skills\<close> returns the skills unchanged. Otherwise it returns, without
  repetition, the skills together with, for each skill, the match that \<open>extractOne\<close>
  returns among the known terms occurring in the lowercased job description when its
  score reaches the threshold. That match is a known term occurring there whose score
  is maximal among them, and it exists for every skill when the scorer does not raise.
  So the result contains every skill, and each added element is a known term that
  occurs in the lowercased job description.
\<close>

theorem fuzzy_expand_skills_spec:
  assumes "\<And>xs. mset (order xs) = mset xs"
  shows "(skills = [] \<or> jd = [] \<or> (\<forall>t \<in> known_terms. \<not> str_in t (lower jd))
            \<longrightarrow> fuzzy_expand_skills order sc skills jd t = skills)
    \<and> (skills \<noteq> [] \<and> jd \<noteq> [] \<and> (\<exists>t \<in> known_terms. str_in t (lower jd))
            \<longrightarrow> set (fuzzy_expand_skills order sc skills jd t) =
                  set skills \<union> {m. \<exists>s \<in> set skills. \<exists>score k.
                    extractOne sc s (jd_terms_of order jd) = Inr (Some (m, score, k)) \<and> t \<le> score}
                \<and> distinct (fuzzy_expand_skills order sc skills jd t))
    \<and> (\<forall>s m score k. extractOne sc s (jd_terms_of order jd) = Inr (Some (m, score, k))
            \<longrightarrow> m \<in> known_terms \<and> str_in m (lower jd) \<and> sc s m = Inr score
                \<and> (\<forall>c \<in> known_terms. str_in c (lower jd) \<longrightarrow> (\<exists>s'. sc s c = Inr s' \<and> s' \<le> score)))
    \<and> ((\<forall>s c. \<exists>v. sc s c = Inr v) \<and> (\<exists>t \<in> known_terms. str_in t (lower jd))
            \<longrightarrow> (\<forall>s. \<exists>m score k. extractOne sc s (jd_terms_of order jd) = Inr (Some (m, score, k))))
    \<and> set skills \<subseteq> set (fuzzy_expand_skills order sc skills jd t)
    \<and> (\<forall>x \<in> set (fuzzy_expand_skills order sc skills jd t) - set skills.
          x \<in> known_terms \<and> str_in x (lower jd))"
proof -
  let ?J = "jd_terms_of order jd"
  have J: "set ?J = {t \<in> known_terms. str_in t (lower jd)}"
    by (rule set_jd_terms_of [OF assms])
  have Jnil: "?J = [] \<longleftrightarrow> (\<forall>t \<in> known_terms. \<not> str_in t (lower jd))"
    using J by (metis (mono_tags, lifting) empty_Collect_eq set_empty)
  have c1: "fuzzy_expand_skills order sc skills jd t = skills"
    if "skills = [] \<or> jd = [] \<or> (\<forall>t \<in> known_terms. \<not> str_in t (lower jd))"
    using that Jnil by (auto simp: fuzzy_expand_skills_def Let_def)
  have c2: "set (fuzzy_expand_skills order sc skills jd t) =
                  set skills \<union> {m. \<exists>s \<in> set skills. \<exists>score k.
                    extractOne sc s ?J = Inr (Some (m, score, k)) \<and> t \<le> score}
                \<and> distinct (fuzzy_expand_skills order sc skills jd t)"
    if "skills \<noteq> [] \<and> jd \<noteq> [] \<and> (\<exists>t \<in> known_terms. str_in t (lower jd))"
  proof -
    from that Jnil have "?J \<noteq> []" by blast
    with that have "fuzzy_expand_skills order sc skills jd t =
        order (py_set (skills @ fold (match_skill sc ?J t) skills []))"
      by (simp add: fuzzy_expand_skills_def Let_def)
    then show ?thesis
      by (simp add: rearr_set [OF assms] rearr_distinct [OF assms] set_py_set distinct_py_set
          set_fold_match_skill)
  qed
  have c3: "m \<in> known_terms \<and> str_in m (lower jd) \<and> sc s m = Inr score
                \<and> (\<forall>c \<in> known_terms. str_in c (lower jd) \<longrightarrow> (\<exists>s'. sc s c = Inr s' \<and> s' \<le> score))"
    if "extractOne sc s ?J = Inr (Some (m, score, k))" for s m score k
    using extractOne_best [OF that] J by auto
  have c4: "\<forall>s. \<exists>m score k. extractOne sc s ?J = Inr (Some (m, score, k))"
    if "(\<forall>s c. \<exists>v. sc s c = Inr v) \<and> (\<exists>t \<in> known_terms. str_in t (lower jd))"
  proof
    fix s
    from that Jnil have "?J \<noteq> []" by blast
    moreover from that have "\<forall>c \<in> set ?J. \<exists>v. sc s c = Inr v" by blast
    ultimately show "\<exists>m score k. extractOne sc s ?J = Inr (Some (m, score, k))"
      by (rule extractOne_total [rotated])
  qed
  have c5: "set skills \<subseteq> set (fuzzy_expand_skills order sc skills jd t)"
    using c1 c2 by (cases "skills = [] \<or> jd = [] \<or> (\<forall>t \<in> known_terms. \<not> str_in t (lower jd))") auto
  have c6: "x \<in> known_terms \<and> str_in x (lower jd)"
    if "x \<in> set (fuzzy_expand_skills order sc skills jd t) - set skills" for x
  proof (cases "skills = [] \<or> jd = [] \<or> (\<forall>t \<in> known_terms. \<not> str_in t (lower jd))")
    case True
    with c1 that show ?thesis by simp
  next
    case False
    then have "skills \<noteq> [] \<and> jd \<noteq> [] \<and> (\<exists>t \<in> known_terms. str_in t (lower jd))" by blast
    from c2 [OF this] that obtain s score k where
      "extractOne sc s ?J = Inr (Some (x, score, k))" by auto
    from c3 [OF this] show ?thesis by simp
  qed
  show ?thesis
    using c1 c2 c3 c4 c5 c6 by (intro conjI allI impI ballI) blast+
qed


theorem fuzzy_expand_skills_spec_witness:
  "mset (rev [''a'', ''b'']) = mset [''a'', ''b'']
   \<and> ''javascript'' \<in> known_terms
   \<and> str_in ''javascript'' (lower ''JavaScript developer'')
   \<and> set (fuzzy_expand_skills rev demo_scorer [''java''] ''JavaScript developer'' default_threshold)
       = {''java'', ''javascript''}
   \<and> fuzzy_expand_skills rev demo_scorer [''java''] [] default_threshold = [''java'']"
proof -
  have perm: "\<And>xs :: string list. mset (rev xs) = mset xs" by simp
  have "''javascript'' \<in> set (jd_terms_of rev ''JavaScript developer'')"
    by (simp add: demo_jd_terms)
  then have k: "''javascript'' \<in> known_terms \<and> str_in ''javascript'' (lower ''JavaScript developer'')"
    by (simp add: set_jd_terms_of [OF perm])
  note T = fuzzy_expand_skills_spec [OF perm, of "[''java'']" _ demo_scorer default_threshold]
  have a: "set (fuzzy_expand_skills rev demo_scorer [''java''] ''JavaScript developer'' default_threshold)
       = {''java'', ''javascript''}"
    using T [of "''JavaScript developer''", THEN conjunct2, THEN conjunct1] k
    by (auto simp: demo_jd_terms demo_extract default_threshold_def)
  have b: "fuzzy_expand_skills rev demo_scorer [''java''] [] default_threshold = [''java'']"
    using T [of "[]", THEN conjunct1] by simp
  show ?thesis using perm k a b by (intro conjI) simp_all
qed

section \<open>Properties of the text extractor\<close>

lemma fold_append_lines:
  "fold (\<lambda>url text. text @ ''- '' @ url @ [CHR 0x0A]) urls t
     = t @ concat (map (\<lambda>url. ''- '' @ url @ [CHR 0x0A]) urls)"
  by (induction urls arbitrary: t) simp_all

lemma append_urls_block:
  "append_urls text urls = (if urls = [] then text else text @ url_block urls)"
  unfolding append_urls_def url_block_def fold_append_lines by simp

lemma set_first_occurrences: "set (first_occurrences xs) = set xs"
  by (induction xs) auto

lemma distinct_first_occurrences: "distinct (first_occurrences xs)"
  by (induction xs) (auto simp: distinct_removeAll)

lemma filter_removeAll_in:
  "x \<in> A \<Longrightarrow> filter (\<lambda>y. y \<notin> A) (removeAll x ys) = filter (\<lambda>y. y \<notin> A) ys"
  by (induction ys) auto

lemma filter_removeAll_snoc:
  "filter (\<lambda>y. y \<notin> set (acc @ [x])) ys = filter (\<lambda>y. y \<notin> set acc) (removeAll x ys)"
  by (induction ys) auto

lemma fold_add_url:
  "fold add_url xs acc = acc @ filter (\<lambda>y. y \<notin> set acc) (first_occurrences xs)"
proof (induction xs arbitrary: acc)
  case Nil
  then show ?case by simp
next
  case (Cons x xs)
  show ?case
  proof (cases "x \<in> set acc")
    case True
    with Cons.IH [of acc] show ?thesis
      by (simp add: add_url_def filter_removeAll_in)
  next
    case False
    with Cons.IH [of "acc @ [x]"] show ?thesis
      by (simp add: add_url_def filter_removeAll_snoc del: set_append)
  qed
qed

lemma fold_add_url_Nil: "fold add_url xs [] = first_occurrences xs"
  by (simp add: fold_add_url)

lemma scan_annotations_fst:
  "fst (scan_annotations L refs urls) = fold add_url (discovered L refs) urls"
  by (induction refs arbitrary: urls) (auto split: sum.splits option.splits)

lemma scan_annotations_None:
  "snd (scan_annotations L refs urls) = None \<Longrightarrow>
     discovered L (refs @ others) = discovered L refs @ discovered L others"
  by (induction refs arbitrary: urls) (auto split: sum.splits option.splits)

lemma scan_annotations_Some:
  "snd (scan_annotations L refs urls) = Some e \<Longrightarrow>
     discovered L (refs @ others) = discovered L refs"
  by (induction refs arbitrary: urls) (auto split: sum.splits option.splits)

lemma scan_pages_fst:
  "fst (scan_pages L pages urls)
     = fold add_url (discovered L (concat (map annotation_refs pages))) urls"
proof (induction pages arbitrary: urls)
  case Nil
  then show ?case by simp
next
  case (Cons page pages)
  obtain urls' r where s: "scan_annotations L (annotation_refs page) urls = (urls', r)"
    by (cases "scan_annotations L (annotation_refs page) urls")
  have u: "urls' = fold add_url (discovered L (annotation_refs page)) urls"
    using scan_annotations_fst [of L "annotation_refs page" urls] s by simp
  show ?case
  proof (cases r)
    case None
    with s have "discovered L (annotation_refs page @ concat (map annotation_refs pages))
        = discovered L (annotation_refs page) @ discovered L (concat (map annotation_refs pages))"
      using scan_annotations_None [of L "annotation_refs page" urls] by simp
    with None s u Cons.IH [of urls'] show ?thesis by simp
  next
    case (Some e)
    with s have "discovered L (annotation_refs page @ concat (map annotation_refs pages))
        = discovered L (annotation_refs page)"
      using scan_annotations_Some [of L "annotation_refs page" urls e] by simp
    with Some s u show ?thesis by simp
  qed
qed

lemma extract_urls_from_pdf_discovered:
  "files file_path = Some data \<Longrightarrow> PdfReader L data = Inr pages \<Longrightarrow>
     extract_urls_from_pdf L files file_path
       = first_occurrences (discovered L (concat (map annotation_refs pages)))"
  by (simp add: extract_urls_from_pdf_def scan_pages_fst fold_add_url_Nil)

text \<open>
  Claim C1. The Word document of the examples has one hyperlink relationship with an
  external target. Read from its path, \<open>extract_text_from_docx\<close> appends the URL block
  with that target to the paragraphs. Read from its bytes, \<open>extract_text_from_docx_bytes\<close>
  and \<open>extract_text_from_bytes\<close> with a \<open>.docx\<close> file name return the paragraphs alone:
  the hyperlink target is not recovered and no URL block is appended.
\<close>

theorem docx_bytes_omits_urls:
  "extract_urls_from_docx demo_library demo_files ''cv.docx'' = [''https://example.org/jane'']
   \<and> extract_text_from_docx demo_library demo_files ''cv.docx''
       = Inr (''Jane Doe'' @ [CHR 0x0A] @ ''Engineer'' @ url_block [''https://example.org/jane''])
   \<and> extract_text_from_docx_bytes demo_library ''PK''
       = Inr (''Jane Doe'' @ [CHR 0x0A] @ ''Engineer'')
   \<and> fst (extract_text_from_bytes demo_library ''/tmp/tmp1.pdf'' demo_files ''PK'' ''cv.docx'')
       = Inr (''Jane Doe'' @ [CHR 0x0A] @ ''Engineer'')"
  by code_simp

text \<open>
  Claim C8. When the extension of the file name, lowercased, is none of \<open>.pdf\<close>, \<open>.docx\<close>
  and \<open>.doc\<close>, \<open>extract_text_from_bytes\<close> fails with the \<open>ValueError\<close> whose message names
  that extension and the supported formats, and leaves the file system as it was; so
  does \<open>extract_text_from_file\<close> for a file that exists. For a path that does not exist,
  \<open>extract_text_from_file\<close> fails with \<open>FileNotFoundError\<close> whatever the extension is: the
  existence of the file is checked before its format.
\<close>

theorem unsupported_format_and_not_found:
  "(lower (path_suffix filename) \<notin> {''.pdf'', ''.docx'', ''.doc''} \<longrightarrow>
      extract_text_from_bytes L tmp_name files file_bytes filename
        = (Inl (ValueError (''Unsupported file format: '' @ lower (path_suffix filename)
                  @ ''. Supported formats: .pdf, .docx, .doc'')), files))
   \<and> (files file_path \<noteq> None \<and> lower (path_suffix file_path) \<notin> {''.pdf'', ''.docx'', ''.doc''} \<longrightarrow>
      extract_text_from_file L files file_path
        = Inl (ValueError (''Unsupported file format: '' @ lower (path_suffix file_path)
                  @ ''. Supported formats: .pdf, .docx, .doc'')))
   \<and> (files file_path = None \<longrightarrow>
      extract_text_from_file L files file_path
        = Inl (FileNotFoundError (''File not found: '' @ file_path)))"
  by (simp add: extract_text_from_bytes_def extract_text_from_file_def unsupported_def Let_def)

lemma demo_suffix: "lower (path_suffix ''notes.TXT'') = ''.txt''"
  by code_simp

lemma demo_suffix_missing: "lower (path_suffix ''resume.txt'') = ''.txt''"
  by code_simp

theorem unsupported_format_and_not_found_witness:
  "extract_text_from_bytes demo_library ''/tmp/tmp1.pdf'' demo_files ''hello'' ''notes.TXT''
     = (Inl (ValueError ''Unsupported file format: .txt. Supported formats: .pdf, .docx, .doc''), demo_files)
   \<and> extract_text_from_file demo_library demo_files ''notes.TXT''
     = Inl (ValueError ''Unsupported file format: .txt. Supported formats: .pdf, .docx, .doc'')
   \<and> extract_text_from_file demo_library demo_files ''resume.txt''
     = Inl (FileNotFoundError ''File not found: resume.txt'')"
proof -
  have s: "''.txt'' \<notin> {''.pdf'', ''.docx'', ''.doc''}" by simp
  have e: "demo_files ''notes.TXT'' \<noteq> None" by (simp add: demo_files_def)
  have m: "demo_files ''resume.txt'' = None" by (simp add: demo_files_def)
  note a = unsupported_format_and_not_found
    [of "''notes.TXT''" demo_library "''/tmp/tmp1.pdf''" demo_files "''hello''" "''notes.TXT''",
     unfolded demo_suffix]
  note b = unsupported_format_and_not_found
    [of "''notes.TXT''" demo_library "''/tmp/tmp1.pdf''" demo_files "''hello''" "''resume.txt''"]
  have 1: "extract_text_from_bytes demo_library ''/tmp/tmp1.pdf'' demo_files ''hello'' ''notes.TXT''
     = (Inl (ValueError ''Unsupported file format: .txt. Supported formats: .pdf, .docx, .doc''), demo_files)"
    using a [THEN conjunct1, rule_format, OF s] by simp
  have 2: "extract_text_from_file demo_library demo_files ''notes.TXT''
     = Inl (ValueError ''Unsupported file format: .txt. Supported formats: .pdf, .docx, .doc'')"
    using a [THEN conjunct2, THEN conjunct1, rule_format, OF conjI [OF e s]] by simp
  have 3: "extract_text_from_file demo_library demo_files ''resume.txt''
     = Inl (FileNotFoundError ''File not found: resume.txt'')"
    using b [THEN conjunct2, THEN conjunct2, rule_format, OF m] by simp
  from 1 2 3 show ?thesis by (intro conjI)
qed

lemma docx_add_url_eq:
  "docx_add_url rel urls =
     (if str_in ''hyperlink'' (reltype rel) \<and> target_ref rel \<noteq> [] \<and> \<not> prefix ''#'' (target_ref rel)
      then add_url (target_ref rel) urls else urls)"
  by (simp add: docx_add_url_def add_url_def Let_def)

lemma fold_docx_add_url:
  "fold docx_add_url rs acc =
     fold add_url
       (filter (\<lambda>url. url \<noteq> [] \<and> \<not> prefix ''#'' url)
          (map target_ref (filter (\<lambda>rel. str_in ''hyperlink'' (reltype rel)) rs))) acc"
  by (induction rs arbitrary: acc) (simp_all add: docx_add_url_eq)

lemma extract_urls_from_docx_targets:
  "files file_path = Some data \<Longrightarrow> Document L data = Inr doc \<Longrightarrow>
     extract_urls_from_docx L files file_path = first_occurrences (hyperlink_targets doc)"
  by (simp add: extract_urls_from_docx_def fold_docx_add_url fold_add_url_Nil hyperlink_targets_def)

lemma distinct_extract_urls_from_pdf: "distinct (extract_urls_from_pdf L files file_path)"
proof (cases "files file_path")
  case None
  then show ?thesis by (simp add: extract_urls_from_pdf_def)
next
  case (Some data)
  show ?thesis
  proof (cases "PdfReader L data")
    case (Inl e)
    with Some show ?thesis by (simp add: extract_urls_from_pdf_def)
  next
    case (Inr pages)
    show ?thesis
      unfolding extract_urls_from_pdf_discovered [of files file_path data L pages, OF Some Inr]
      by (rule distinct_first_occurrences)
  qed
qed

lemma distinct_extract_urls_from_docx: "distinct (extract_urls_from_docx L files file_path)"
proof (cases "files file_path")
  case None
  then show ?thesis by (simp add: extract_urls_from_docx_def)
next
  case (Some data)
  show ?thesis
  proof (cases "Document L data")
    case (Inl e)
    with Some show ?thesis by (simp add: extract_urls_from_docx_def)
  next
    case (Inr doc)
    show ?thesis
      unfolding extract_urls_from_docx_targets [of files file_path data L doc, OF Some Inr]
      by (rule distinct_first_occurrences)
  qed
qed

lemma extract_text_from_pdf_Inr:
  assumes "extract_text_from_pdf L files file_path = Inr text"
  shows "\<exists>data pages. files file_path = Some data \<and> PdfReader L data = Inr pages
     \<and> extract_urls_from_pdf L files file_path
         = first_occurrences (discovered L (concat (map annotation_refs pages)))
     \<and> text = (if extract_urls_from_pdf L files file_path = []
               then py_join [CHR 0x0A] (page_texts pages)
               else py_join [CHR 0x0A] (page_texts pages)
                      @ url_block (extract_urls_from_pdf L files file_path))"
proof -
  from assms obtain data where d: "files file_path = Some data"
    by (cases "files file_path") (auto simp: extract_text_from_pdf_def)
  with assms obtain pages where p: "PdfReader L data = Inr pages"
    by (cases "PdfReader L data") (auto simp: extract_text_from_pdf_def)
  have u: "extract_urls_from_pdf L files file_path
       = first_occurrences (discovered L (concat (map annotation_refs pages)))"
    using d p by (rule extract_urls_from_pdf_discovered)
  from assms d p have t: "text = append_urls (py_join [CHR 0x0A] (page_texts pages))
      (extract_urls_from_pdf L files file_path)"
    by (simp add: extract_text_from_pdf_def Let_def)
  from d p u t show ?thesis
    by (auto simp: append_urls_block)
qed

lemma extract_text_from_docx_Inr:
  assumes "extract_text_from_docx L files file_path = Inr text"
  shows "\<exists>data doc. files file_path = Some data \<and> Document L data = Inr doc
     \<and> extract_urls_from_docx L files file_path = first_occurrences (hyperlink_targets doc)
     \<and> text = (if extract_urls_from_docx L files file_path = []
               then py_join [CHR 0x0A] (map the (paragraphs doc))
               else py_join [CHR 0x0A] (map the (paragraphs doc))
                      @ url_block (extract_urls_from_docx L files file_path))"
proof -
  from assms obtain data where d: "files file_path = Some data"
    by (cases "files file_path") (auto simp: extract_text_from_docx_def)
  with assms obtain doc where p: "Document L data = Inr doc"
    by (cases "Document L data") (auto simp: extract_text_from_docx_def)
  have u: "extract_urls_from_docx L files file_path = first_occurrences (hyperlink_targets doc)"
    using d p by (rule extract_urls_from_docx_targets)
  from assms d p have t: "text = append_urls (py_join [CHR 0x0A] (map the (paragraphs doc)))
      (extract_urls_from_docx L files file_path)"
    by (simp add: extract_text_from_docx_def Let_def split: if_splits)
  from d p u t show ?thesis
    by (auto simp: append_urls_block)
qed

lemma extract_text_from_docx_None:
  "files file_path = Some data \<Longrightarrow> Document L data = Inr doc \<Longrightarrow> None \<in> set (paragraphs doc)
     \<Longrightarrow> extract_text_from_docx L files file_path = Inl (TypeError ''join'')"
  by (simp add: extract_text_from_docx_def)

lemma extract_text_from_pdf_bytes_staged:
  assumes "tmp_create_fault L = None" "tmp_write_fault L file_bytes = None"
    "tmp_close_fault L = None"
  shows "fst (extract_text_from_pdf_bytes L tmp_name files file_bytes)
     = extract_text_from_pdf L (files(tmp_name \<mapsto> file_bytes)) tmp_name"
  using assms by (simp add: extract_text_from_pdf_bytes_def Let_def)

lemma extract_text_from_docx_bytes_Inr:
  assumes "extract_text_from_docx_bytes L file_bytes = Inr text"
  shows "\<exists>doc. Document L file_bytes = Inr doc
     \<and> text = py_join [CHR 0x0A] (map (\<lambda>t. case t of None \<Rightarrow> [] | Some s \<Rightarrow> s) (paragraphs doc))"
  using assms by (auto simp: extract_text_from_docx_bytes_def split: sum.splits)

text \<open>
  Claim C4. Whenever the extractor of PDF files or the extractor of Word files returns
  a text, the file was read and parsed, and the URLs that it lists are the first
  occurrences, in order, of the URLs discovered: for a PDF the URLs that the link
  annotations of the pages yield, for a Word document the hyperlink targets of its
  relationship table. No URL is listed twice. When there is no URL the text is the body
  alone, the texts of the pages or of the paragraphs joined by newlines, with no URL
  block; otherwise it is the body followed by the URL block, which is a blank line, the
  header \<open>EXTRACTED URLS/LINKS:\<close> and one line \<open>- url\<close> for each URL. PDF bytes that have
  been staged give what the extractor of PDF files gives on the staged file. The
  extractor of Word bytes discovers no URL and returns the body alone.
\<close>

theorem extracted_text_url_block:
  "(extract_text_from_pdf L files file_path = Inr text \<longrightarrow>
      (\<exists>data pages. files file_path = Some data \<and> PdfReader L data = Inr pages
         \<and> extract_urls_from_pdf L files file_path
             = first_occurrences (discovered L (concat (map annotation_refs pages)))
         \<and> text = (if extract_urls_from_pdf L files file_path = []
                   then py_join [CHR 0x0A] (page_texts pages)
                   else py_join [CHR 0x0A] (page_texts pages)
                          @ url_block (extract_urls_from_pdf L files file_path))))
   \<and> (extract_text_from_docx L files file_path = Inr text \<longrightarrow>
      (\<exists>data doc. files file_path = Some data \<and> Document L data = Inr doc
         \<and> extract_urls_from_docx L files file_path = first_occurrences (hyperlink_targets doc)
         \<and> text = (if extract_urls_from_docx L files file_path = []
                   then py_join [CHR 0x0A] (map the (paragraphs doc))
                   else py_join [CHR 0x0A] (map the (paragraphs doc))
                          @ url_block (extract_urls_from_docx L files file_path))))
   \<and> distinct (extract_urls_from_pdf L files file_path)
   \<and> distinct (extract_urls_from_docx L files file_path)
   \<and> (tmp_create_fault L = None \<and> tmp_write_fault L file_bytes = None \<and> tmp_close_fault L = None \<longrightarrow>
        fst (extract_text_from_pdf_bytes L tmp_name files file_bytes)
          = extract_text_from_pdf L (files(tmp_name \<mapsto> file_bytes)) tmp_name)
   \<and> (extract_text_from_docx_bytes L file_bytes = Inr text \<longrightarrow>
      (\<exists>doc. Document L file_bytes = Inr doc
         \<and> text = py_join [CHR 0x0A]
                    (map (\<lambda>t. case t of None \<Rightarrow> [] | Some s \<Rightarrow> s) (paragraphs doc))))"
proof (intro conjI impI)
  show "\<exists>data pages. files file_path = Some data \<and> PdfReader L data = Inr pages
         \<and> extract_urls_from_pdf L files file_path
             = first_occurrences (discovered L (concat (map annotation_refs pages)))
         \<and> text = (if extract_urls_from_pdf L files file_path = []
                   then py_join [CHR 0x0A] (page_texts pages)
                   else py_join [CHR 0x0A] (page_texts pages)
                          @ url_block (extract_urls_from_pdf L files file_path))"
    if "extract_text_from_pdf L files file_path = Inr text"
    using that by (rule extract_text_from_pdf_Inr)
  show "\<exists>data doc. files file_path = Some data \<and> Document L data = Inr doc
         \<and> extract_urls_from_docx L files file_path = first_occurrences (hyperlink_targets doc)
         \<and> text = (if extract_urls_from_docx L files file_path = []
                   then py_join [CHR 0x0A] (map the (paragraphs doc))
                   else py_join [CHR 0x0A] (map the (paragraphs doc))
                          @ url_block (extract_urls_from_docx L files file_path))"
    if "extract_text_from_docx L files file_path = Inr text"
    using that by (rule extract_text_from_docx_Inr)
  show "distinct (extract_urls_from_pdf L files file_path)"
    by (rule distinct_extract_urls_from_pdf)
  show "distinct (extract_urls_from_docx L files file_path)"
    by (rule distinct_extract_urls_from_docx)
  show "fst (extract_text_from_pdf_bytes L tmp_name files file_bytes)
          = extract_text_from_pdf L (files(tmp_name \<mapsto> file_bytes)) tmp_name"
    if "tmp_create_fault L = None \<and> tmp_write_fault L file_bytes = None \<and> tmp_close_fault L = None"
    using that by (simp add: extract_text_from_pdf_bytes_staged)
  show "\<exists>doc. Document L file_bytes = Inr doc
         \<and> text = py_join [CHR 0x0A]
                    (map (\<lambda>t. case t of None \<Rightarrow> [] | Some s \<Rightarrow> s) (paragraphs doc))"
    if "extract_text_from_docx_bytes L file_bytes = Inr text"
    using that by (rule extract_text_from_docx_bytes_Inr)
qed

lemma demo_pdf_text:
  "extract_text_from_pdf demo_library demo_files ''cv.pdf''
     = Inr (''Jane Doe'' @ [CHR 0x0A] @ url_block [''u1'', ''u2''])"
  by code_simp

lemma demo_pdf_discovered:
  "discovered demo_library (concat (map annotation_refs demo_pages)) = [''u1'', ''u2'', ''u1'']"
  by code_simp

lemma demo_pdf_parse:
  "demo_files ''cv.pdf'' = Some ''%PDF'' \<and> PdfReader demo_library ''%PDF'' = Inr demo_pages"
  by (simp add: demo_files_def demo_library_def demo_pdf_reader_def)

lemma demo_docx_text:
  "extract_text_from_docx demo_library demo_files ''links.docx''
     = Inr (''Links'' @ url_block [''https://a.example'', ''https://b.example''])"
  by code_simp

lemma demo_docx_targets:
  "hyperlink_targets demo_docx_links
     = [''https://a.example'', ''https://b.example'', ''https://a.example'']"
  by code_simp

lemma demo_docx_parse:
  "demo_files ''links.docx'' = Some ''PK links''
   \<and> Document demo_library ''PK links'' = Inr demo_docx_links"
  by (simp add: demo_files_def demo_library_def demo_document_def)

lemma demo_plain_text:
  "extract_text_from_docx demo_library demo_files ''plain.docx''
     = Inr (''Plain'' @ [CHR 0x0A] @ ''text'')"
  by code_simp

lemma demo_plain_urls: "extract_urls_from_docx demo_library demo_files ''plain.docx'' = []"
  by code_simp

lemma demo_staged_text:
  "extract_text_from_pdf demo_library (demo_files(''/tmp/tmp1.pdf'' \<mapsto> ''%PDF'')) ''/tmp/tmp1.pdf''
     = Inr (''Jane Doe'' @ [CHR 0x0A] @ url_block [''u1'', ''u2''])"
  by code_simp

lemma demo_no_faults:
  "tmp_create_fault demo_library = None \<and> tmp_write_fault demo_library ''%PDF'' = None
   \<and> tmp_close_fault demo_library = None"
  by (simp add: demo_library_def)

theorem extracted_text_url_block_witness:
  "extract_text_from_pdf demo_library demo_files ''cv.pdf''
     = Inr (''Jane Doe'' @ [CHR 0x0A] @ url_block [''u1'', ''u2''])
   \<and> discovered demo_library (concat (map annotation_refs demo_pages)) = [''u1'', ''u2'', ''u1'']
   \<and> extract_urls_from_pdf demo_library demo_files ''cv.pdf'' = [''u1'', ''u2'']
   \<and> extract_text_from_docx demo_library demo_files ''links.docx''
     = Inr (''Links'' @ url_block [''https://a.example'', ''https://b.example''])
   \<and> hyperlink_targets demo_docx_links
     = [''https://a.example'', ''https://b.example'', ''https://a.example'']
   \<and> extract_urls_from_docx demo_library demo_files ''links.docx''
     = [''https://a.example'', ''https://b.example'']
   \<and> extract_text_from_docx demo_library demo_files ''plain.docx''
     = Inr (''Plain'' @ [CHR 0x0A] @ ''text'')
   \<and> extract_urls_from_docx demo_library demo_files ''plain.docx'' = []
   \<and> fst (extract_text_from_pdf_bytes demo_library ''/tmp/tmp1.pdf'' demo_files ''%PDF'')
     = Inr (''Jane Doe'' @ [CHR 0x0A] @ url_block [''u1'', ''u2''])"
proof -
  note P = extracted_text_url_block
    [of demo_library demo_files "''cv.pdf''"
        "''Jane Doe'' @ [CHR 0x0A] @ url_block [''u1'', ''u2'']" "''%PDF''" "''/tmp/tmp1.pdf''"]
  note D = extracted_text_url_block
    [of demo_library demo_files "''links.docx''"
        "''Links'' @ url_block [''https://a.example'', ''https://b.example'']"
        "''%PDF''" "''/tmp/tmp1.pdf''"]
  from P [THEN conjunct1, rule_format, OF demo_pdf_text] demo_pdf_parse
  have "extract_urls_from_pdf demo_library demo_files ''cv.pdf''
         = first_occurrences (discovered demo_library (concat (map annotation_refs demo_pages)))"
    by auto
  then have 1: "extract_urls_from_pdf demo_library demo_files ''cv.pdf'' = [''u1'', ''u2'']"
    by (simp add: demo_pdf_discovered)
  from D [THEN conjunct2, THEN conjunct1, rule_format, OF demo_docx_text] demo_docx_parse
  have "extract_urls_from_docx demo_library demo_files ''links.docx''
         = first_occurrences (hyperlink_targets demo_docx_links)"
    by auto
  then have 2: "extract_urls_from_docx demo_library demo_files ''links.docx''
         = [''https://a.example'', ''https://b.example'']"
    by (simp add: demo_docx_targets)
  have 3: "fst (extract_text_from_pdf_bytes demo_library ''/tmp/tmp1.pdf'' demo_files ''%PDF'')
     = Inr (''Jane Doe'' @ [CHR 0x0A] @ url_block [''u1'', ''u2''])"
    using P [THEN conjunct2, THEN conjunct2, THEN conjunct2, THEN conjunct2, THEN conjunct1,
             rule_format, OF demo_no_faults] demo_staged_text
    by (rule trans)
  from demo_pdf_text demo_pdf_discovered 1 demo_docx_text demo_docx_targets 2
    demo_plain_text demo_plain_urls 3
  show ?thesis by (intro conjI)
qed

text \<open>The exit paths of \<open>extract_text_from_pdf_bytes\<close>, one by one.\<close>

lemma pdf_bytes_create_fault:
  "tmp_create_fault L = Some e \<Longrightarrow>
     extract_text_from_pdf_bytes L tmp_name files file_bytes = (Inl e, files)"
  by (simp add: extract_text_from_pdf_bytes_def remove_tmp_def)

lemma pdf_bytes_write_fault:
  "tmp_create_fault L = None \<Longrightarrow> tmp_write_fault L file_bytes = Some (e, written) \<Longrightarrow>
     extract_text_from_pdf_bytes L tmp_name files file_bytes
       = (Inl e, files(tmp_name \<mapsto> written))"
  by (simp add: extract_text_from_pdf_bytes_def remove_tmp_def)

lemma pdf_bytes_close_fault:
  "tmp_create_fault L = None \<Longrightarrow> tmp_write_fault L file_bytes = None \<Longrightarrow>
   tmp_close_fault L = Some e \<Longrightarrow>
     fst (extract_text_from_pdf_bytes L tmp_name files file_bytes) = Inl e"
  by (simp add: extract_text_from_pdf_bytes_def)

lemma pdf_bytes_removed:
  "tmp_create_fault L = None \<Longrightarrow> tmp_write_fault L file_bytes = None \<Longrightarrow>
   tmp_name \<noteq> [] \<Longrightarrow> os_remove_fault L tmp_name = None \<Longrightarrow>
     snd (extract_text_from_pdf_bytes L tmp_name files file_bytes) = files(tmp_name := None)"
  by (simp add: extract_text_from_pdf_bytes_def remove_tmp_def os_remove_def Let_def
        split: option.splits)

lemma pdf_bytes_not_removed:
  "tmp_create_fault L = None \<Longrightarrow> tmp_write_fault L file_bytes = None \<Longrightarrow>
   os_remove_fault L tmp_name = Some e \<Longrightarrow>
     snd (extract_text_from_pdf_bytes L tmp_name files file_bytes) = files(tmp_name \<mapsto> file_bytes)"
  by (simp add: extract_text_from_pdf_bytes_def remove_tmp_def os_remove_def Let_def
        split: option.splits)


section \<open>Properties of the result-shape normalizer\<close>

lemma wrapped_idem: "wrapped (wrapped v) = wrapped v"
  by (cases v) simp_all

lemma map_of_normalize_key:
  "map_of (normalize_key key d) k = (if k = key then map_option wrapped (map_of d k) else map_of d k)"
  by (auto simp: normalize_key_def update_conv' split: option.splits pyval.splits)

lemma map_of_fold_normalize_key:
  "map_of (fold normalize_key keys d) k
     = (if k \<in> set keys then map_option wrapped (map_of d k) else map_of d k)"
proof (induction keys arbitrary: d)
  case Nil
  show ?case by simp
next
  case (Cons key keys)
  have w: "map_option wrapped (map_option wrapped x) = map_option wrapped x" for x :: "'a pyval option"
    by (cases x) (simp_all add: wrapped_idem)
  show ?case
    by (simp add: Cons.IH map_of_normalize_key w)
qed

lemma overall_score_not_object_key: "key \<in> set object_keys \<Longrightarrow> key \<noteq> ''overall_score''"
  by (auto simp: object_keys_def)

lemma normalize_screening_result_dict:
  "\<exists>r. normalize_screening_result float_of (PDict d) = Inr (PDict r)"
  by (simp add: normalize_screening_result_def Let_def split: sum.splits)

lemma normalize_screening_result_total:
  "\<exists>r. normalize_screening_result float_of result = Inr r"
  by (cases result) (simp_all add: normalize_screening_result_def Let_def split: sum.splits)

lemma normalize_screening_result_other:
  "(\<And>d. result \<noteq> PDict d) \<Longrightarrow> normalize_screening_result float_of result = Inr result"
  by (cases result) (auto simp: normalize_screening_result_def)

lemma normalize_screening_result_object_key:
  assumes "key \<in> set object_keys"
    and "normalize_screening_result float_of (PDict d) = Inr (PDict r)"
  shows "map_of r key = map_option wrapped (map_of d key)"
proof -
  from assms(1) have k: "key \<noteq> ''overall_score''" by (rule overall_score_not_object_key)
  from assms(2) k have "map_of r key = map_of (fold normalize_key object_keys d) key"
    by (auto simp: normalize_screening_result_def coerce_overall_score_def Let_def
          update_conv' delete_conv' split: sum.splits option.splits pyval.splits if_splits)
  with assms(1) show ?thesis by (simp add: map_of_fold_normalize_key)
qed

lemma normalize_screening_result_other_key:
  assumes "key \<notin> set object_keys" "key \<noteq> ''overall_score''"
    and "normalize_screening_result float_of (PDict d) = Inr (PDict r)"
  shows "map_of r key = map_of d key"
proof -
  from assms(3,2) have "map_of r key = map_of (fold normalize_key object_keys d) key"
    by (auto simp: normalize_screening_result_def coerce_overall_score_def Let_def
          update_conv' delete_conv' split: sum.splits option.splits pyval.splits if_splits)
  with assms(1) show ?thesis by (simp add: map_of_fold_normalize_key)
qed

lemma normalize_screening_result_overall_score:
  assumes "normalize_screening_result float_of (PDict d) = Inr (PDict r)"
  shows "map_of r ''overall_score''
     = (case map_of d ''overall_score'' of
          None \<Rightarrow> None
        | Some val \<Rightarrow>
            (case val of
               PStr s \<Rightarrow> (case float_of s of Inl e \<Rightarrow> None | Inr x \<Rightarrow> Some (PFloat x))
             | _ \<Rightarrow> Some val))"
proof -
  have k: "''overall_score'' \<notin> set object_keys" by (simp add: object_keys_def)
  have m: "map_of (fold normalize_key object_keys d) ''overall_score'' = map_of d ''overall_score''"
    using k by (simp add: map_of_fold_normalize_key)
  from assms show ?thesis
    unfolding normalize_screening_result_def coerce_overall_score_def Let_def m
    by (auto simp: update_conv' delete_conv' m split: sum.splits option.splits pyval.splits if_splits)
qed


text \<open>
  Claim C2, as the code has it. For every dictionary and every named field, the
  normalizer returns a dictionary in which a string value of the field has become an
  object with the string as \<open>text\<close>, a list value an object with the list as \<open>items\<close>, null
  the empty object, and an object is as it was; a field that is absent from the input
  is absent from the output. In the words of the specification, the field of the output
  is the wrapping of the field of the input, where there is one.
\<close>

theorem normalize_screening_result_shapes:
  assumes "key \<in> set object_keys"
  shows "\<exists>r. normalize_screening_result float_of (PDict d) = Inr (PDict r)
     \<and> (\<forall>s. map_of d key = Some (PStr s) \<longrightarrow> map_of r key = Some (PDict [(''text'', PStr s)]))
     \<and> (\<forall>items. map_of d key = Some (PList items)
           \<longrightarrow> map_of r key = Some (PDict [(''items'', PList items)]))
     \<and> (map_of d key = Some PNone \<longrightarrow> map_of r key = Some (PDict []))
     \<and> (\<forall>obj. map_of d key = Some (PDict obj) \<longrightarrow> map_of r key = Some (PDict obj))
     \<and> (map_of d key = None \<longrightarrow> map_of r key = None)
     \<and> map_of r key = map_option wrapped (map_of d key)"
proof -
  obtain r where r: "normalize_screening_result float_of (PDict d) = Inr (PDict r)"
    using normalize_screening_result_dict by blast
  have m: "map_of r key = map_option wrapped (map_of d key)"
    using assms r by (rule normalize_screening_result_object_key)
  show ?thesis
    by (rule exI [of _ r]) (simp add: r m)
qed

lemma demo_shapes_result:
  "normalize_screening_result demo_float (PDict demo_shapes)
     = Inr (PDict
         [(''skill_match'', PDict [(''text'', PStr ''strong fit'')]),
          (''cultural_fit'', PDict []),
          (''project_match'', PDict [(''items'', PList [PStr ''crawler'', PStr ''compiler''])]),
          (''education_match'', PDict [(''degree'', PStr ''BSc'')]),
          (''summary'', PStr ''good'')])"
  by code_simp

theorem normalize_screening_result_shapes_witness:
  "''skill_match'' \<in> set object_keys
   \<and> map_of demo_shapes ''skill_match'' = Some (PStr ''strong fit'')
   \<and> normalize_screening_result demo_float (PDict demo_shapes)
     = Inr (PDict
         [(''skill_match'', PDict [(''text'', PStr ''strong fit'')]),
          (''cultural_fit'', PDict []),
          (''project_match'', PDict [(''items'', PList [PStr ''crawler'', PStr ''compiler''])]),
          (''education_match'', PDict [(''degree'', PStr ''BSc'')]),
          (''summary'', PStr ''good'')])
   \<and> (\<exists>r. normalize_screening_result demo_float (PDict demo_shapes) = Inr (PDict r)
          \<and> map_of r ''skill_match'' = Some (PDict [(''text'', PStr ''strong fit'')]))"
proof -
  have k: "''skill_match'' \<in> set object_keys" by (simp add: object_keys_def)
  have m: "map_of demo_shapes ''skill_match'' = Some (PStr ''strong fit'')"
    by (simp add: demo_shapes_def)
  from normalize_screening_result_shapes [OF k, of demo_float demo_shapes]
  obtain r where r: "normalize_screening_result demo_float (PDict demo_shapes) = Inr (PDict r)"
    and s: "\<forall>s. map_of demo_shapes ''skill_match'' = Some (PStr s)
             \<longrightarrow> map_of r ''skill_match'' = Some (PDict [(''text'', PStr s)])"
    by blast
  from s m have "map_of r ''skill_match'' = Some (PDict [(''text'', PStr ''strong fit'')])"
    by blast
  with r have e: "\<exists>r. normalize_screening_result demo_float (PDict demo_shapes) = Inr (PDict r)
          \<and> map_of r ''skill_match'' = Some (PDict [(''text'', PStr ''strong fit'')])"
    by blast
  from k m demo_shapes_result e show ?thesis by (intro conjI)
qed

text \<open>
  What claim C2 says of an absent field does not hold. In the first dictionary the
  named field \<open>education_match\<close> is absent, and so are the other named fields in the
  second: they are absent from the output as well, where the normalizer adds no empty
  object for them.
\<close>

theorem absent_field_stays_absent:
  "normalize_screening_result demo_float (PDict [(''skill_match'', PStr ''strong fit'')])
     = Inr (PDict [(''skill_match'', PDict [(''text'', PStr ''strong fit'')])])
   \<and> normalize_screening_result demo_float (PDict [])
     = Inr (PDict [])"
  by code_simp

text \<open>
  Claim C7. The normalizer returns a value for every input and every behaviour of
  \<open>float\<close>: it never raises. A value that is not a dictionary is returned as it is. For
  a dictionary it returns a dictionary in which \<open>overall_score\<close> is the float that \<open>float\<close>
  gives when the input has a string there that \<open>float\<close> accepts, is absent when the input
  has a string there on which \<open>float\<close> raises, and is the number of the input when the
  input has an integer or a float there.
\<close>

theorem normalize_screening_result_never_raises:
  "(\<exists>r. normalize_screening_result float_of result = Inr r)
   \<and> ((\<forall>d. result \<noteq> PDict d) \<longrightarrow> normalize_screening_result float_of result = Inr result)
   \<and> (\<exists>r. normalize_screening_result float_of (PDict d) = Inr (PDict r)
        \<and> (\<forall>s x. map_of d ''overall_score'' = Some (PStr s) \<and> float_of s = Inr x
              \<longrightarrow> map_of r ''overall_score'' = Some (PFloat x))
        \<and> (\<forall>s e. map_of d ''overall_score'' = Some (PStr s) \<and> float_of s = Inl e
              \<longrightarrow> map_of r ''overall_score'' = None)
        \<and> (\<forall>n. map_of d ''overall_score'' = Some (PInt n)
              \<longrightarrow> map_of r ''overall_score'' = Some (PInt n))
        \<and> (\<forall>x. map_of d ''overall_score'' = Some (PFloat x)
              \<longrightarrow> map_of r ''overall_score'' = Some (PFloat x))
        \<and> (map_of d ''overall_score'' = None \<longrightarrow> map_of r ''overall_score'' = None))"
proof (intro conjI)
  show "\<exists>r. normalize_screening_result float_of result = Inr r"
    by (rule normalize_screening_result_total)
  show "(\<forall>d. result \<noteq> PDict d) \<longrightarrow> normalize_screening_result float_of result = Inr result"
    by (simp add: normalize_screening_result_other)
  obtain r where r: "normalize_screening_result float_of (PDict d) = Inr (PDict r)"
    using normalize_screening_result_dict by blast
  note m = normalize_screening_result_overall_score [OF r]
  show "\<exists>r. normalize_screening_result float_of (PDict d) = Inr (PDict r)
        \<and> (\<forall>s x. map_of d ''overall_score'' = Some (PStr s) \<and> float_of s = Inr x
              \<longrightarrow> map_of r ''overall_score'' = Some (PFloat x))
        \<and> (\<forall>s e. map_of d ''overall_score'' = Some (PStr s) \<and> float_of s = Inl e
              \<longrightarrow> map_of r ''overall_score'' = None)
        \<and> (\<forall>n. map_of d ''overall_score'' = Some (PInt n)
              \<longrightarrow> map_of r ''overall_score'' = Some (PInt n))
        \<and> (\<forall>x. map_of d ''overall_score'' = Some (PFloat x)
              \<longrightarrow> map_of r ''overall_score'' = Some (PFloat x))
        \<and> (map_of d ''overall_score'' = None \<longrightarrow> map_of r ''overall_score'' = None)"
    by (rule exI [of _ r]) (simp add: r m)
qed

lemma demo_scores:
  "normalize_screening_result demo_float (PDict [(''overall_score'', PStr ''7.5''), (''note'', PStr ''ok'')])
     = Inr (PDict [(''overall_score'', PFloat 7.5), (''note'', PStr ''ok'')])"
  "normalize_screening_result demo_float (PDict [(''overall_score'', PStr ''high''), (''note'', PStr ''ok'')])
     = Inr (PDict [(''note'', PStr ''ok'')])"
  "normalize_screening_result demo_float (PDict [(''overall_score'', PInt 7), (''note'', PStr ''ok'')])
     = Inr (PDict [(''overall_score'', PInt 7), (''note'', PStr ''ok'')])"
  "normalize_screening_result demo_float (PStr ''no result'') = Inr (PStr ''no result'')"
  by code_simp+

theorem normalize_screening_result_never_raises_witness:
  "normalize_screening_result demo_float (PDict [(''overall_score'', PStr ''7.5''), (''note'', PStr ''ok'')])
     = Inr (PDict [(''overall_score'', PFloat 7.5), (''note'', PStr ''ok'')])
   \<and> normalize_screening_result demo_float (PDict [(''overall_score'', PStr ''high''), (''note'', PStr ''ok'')])
     = Inr (PDict [(''note'', PStr ''ok'')])
   \<and> normalize_screening_result demo_float (PDict [(''overall_score'', PInt 7), (''note'', PStr ''ok'')])
     = Inr (PDict [(''overall_score'', PInt 7), (''note'', PStr ''ok'')])
   \<and> normalize_screening_result demo_float (PStr ''no result'') = Inr (PStr ''no result'')
   \<and> (\<exists>r. normalize_screening_result demo_float
              (PDict [(''overall_score'', PStr ''high''), (''note'', PStr ''ok'')]) = Inr (PDict r)
          \<and> map_of r ''overall_score'' = None)
   \<and> (\<exists>r. normalize_screening_result demo_float
              (PDict [(''overall_score'', PStr ''7.5''), (''note'', PStr ''ok'')]) = Inr (PDict r)
          \<and> map_of r ''overall_score'' = Some (PFloat 7.5))"
proof -
  have f: "demo_float ''high'' = Inl (ValueError ''could not convert string to float: high'')"
    by (simp add: demo_float_def)
  have g: "demo_float ''7.5'' = Inr 7.5"
    by (simp add: demo_float_def)
  have n: "\<forall>d. PStr ''no result'' \<noteq> (PDict d :: real pyval)" by simp
  note A = normalize_screening_result_never_raises
    [of demo_float "PStr ''no result''" "[(''overall_score'', PStr ''high''), (''note'', PStr ''ok'')]"]
  note B = normalize_screening_result_never_raises
    [of demo_float "PStr ''no result''" "[(''overall_score'', PStr ''7.5''), (''note'', PStr ''ok'')]"]
  have 4: "normalize_screening_result demo_float (PStr ''no result'') = Inr (PStr ''no result'')"
    using A [THEN conjunct2, THEN conjunct1] n by (rule mp)
  from A [THEN conjunct2, THEN conjunct2] f
  have 5: "\<exists>r. normalize_screening_result demo_float
              (PDict [(''overall_score'', PStr ''high''), (''note'', PStr ''ok'')]) = Inr (PDict r)
          \<and> map_of r ''overall_score'' = None"
    by fastforce
  from B [THEN conjunct2, THEN conjunct2] g
  have 6: "\<exists>r. normalize_screening_result demo_float
              (PDict [(''overall_score'', PStr ''7.5''), (''note'', PStr ''ok'')]) = Inr (PDict r)
          \<and> map_of r ''overall_score'' = Some (PFloat 7.5)"
    by fastforce
  from demo_scores(1) demo_scores(2) demo_scores(3) 4 5 6 show ?thesis by (intro conjI)
qed

section \<open>Properties of the resume processor\<close>

lemma iter_strings_str_list: "iter_strings (str_list xs) = Inr xs"
  by (simp add: iter_strings_def str_list_def list_all_iff comp_def)

lemma get_skills_absent: "map_of d ''skills'' = None \<Longrightarrow> iter_strings (get_skills d) = Inr []"
  by (simp add: get_skills_def iter_strings_def)

lemma get_skills_list:
  "map_of d ''skills'' = Some (str_list xs) \<Longrightarrow> iter_strings (get_skills d) = Inr xs"
  by (simp add: get_skills_def iter_strings_str_list)

text \<open>
  When the value of \<open>skills\<close> cannot be iterated as strings, \<open>normalize_skills\<close> raises
  before the first assignment, and the store is as it was.
\<close>

lemma screen_resume_raises:
  "iter_strings (get_skills (h a)) = Inl e \<Longrightarrow> screen_resume P h a jt jd w = (Inl e, h)"
  by (simp add: screen_resume_def)

text \<open>The outcome of \<open>screen_resume\<close> when the screener returns.\<close>

lemma screen_resume_outcome:
  assumes "iter_strings (get_skills (h a)) = Inr skills"
    and "screener P
           (h(a := AList.update ''skills'' (str_list (reconciled_skills P skills jd)) (h a)))
           a jt jd w = (Inr screening_result, h')"
  shows "fst (screen_resume P h a jt jd w)
     = (case result_dict_of screening_result of
          Inl e \<Rightarrow> Inl e
        | Inr result_dict \<Rightarrow> normalize_screening_result (py_float P) (PDict result_dict))"
  using assms
  by (simp add: screen_resume_def reconciled_skills_def Let_def split: prod.splits sum.splits)

lemma screen_resume_screener_raises:
  assumes "iter_strings (get_skills (h a)) = Inr skills"
    and "screener P
           (h(a := AList.update ''skills'' (str_list (reconciled_skills P skills jd)) (h a)))
           a jt jd w = (Inl e, h')"
  shows "screen_resume P h a jt jd w = (Inl e, h')"
  using assms
  by (simp add: screen_resume_def reconciled_skills_def Let_def split: prod.splits sum.splits)

lemma iter_strings_examples:
  "iter_strings (PStr ''go'' :: real pyval) = Inr [''g'', ''o'']"
  "iter_strings (PDict [(''go'', PInt 3)] :: real pyval) = Inr [''go'']"
  "iter_strings (PList [PStr ''go'', PInt 3] :: real pyval) = Inl (AttributeError ''lower'')"
  "iter_strings (PNone :: real pyval) = Inl (TypeError ''object is not iterable'')"
  "iter_strings (PInt 5 :: real pyval) = Inl (TypeError ''object is not iterable'')"
  by (simp_all add: iter_strings_def)

lemma screen_resume_store:
  assumes "iter_strings (get_skills (h a)) = Inr skills"
  shows "snd (screen_resume P h a jt jd w)
     = snd (screener P
              (h(a := AList.update ''skills'' (str_list (reconciled_skills P skills jd)) (h a)))
              a jt jd w)"
  using assms
  by (simp add: screen_resume_def reconciled_skills_def Let_def split: prod.splits sum.splits)

lemma screen_resume_frame:
  assumes "iter_strings (get_skills (h a)) = Inr skills"
    and "\<forall>h' a' t d' w'. snd (screener P h' a' t d' w') = h'"
  shows "snd (screen_resume P h a jt jd w)
     = h(a := AList.update ''skills'' (str_list (reconciled_skills P skills jd)) (h a))"
proof -
  have "snd (screen_resume P h a jt jd w)
     = snd (screener P
              (h(a := AList.update ''skills'' (str_list (reconciled_skills P skills jd)) (h a)))
              a jt jd w)"
    using assms(1) by (rule screen_resume_store)
  with assms(2) show ?thesis by simp
qed

lemma process_resume_from_path_store:
  assumes "extract_text_from_file (lib P) files file_path = Inr text" "parser P text = Inr d"
  shows "snd (process_resume_from_path P files h new_addr file_path jt jd w)
     = snd (screen_resume P (h(new_addr := d)) new_addr jt jd w)"
  using assms
  by (simp add: process_resume_from_path_def parse_resume_from_path_def
        split: prod.splits sum.splits)

lemma process_resume_from_path_parsed:
  "fst (process_resume_from_path P files h new_addr file_path jt jd w) = Inr r \<Longrightarrow>
     parsed r = new_addr"
  by (auto simp: process_resume_from_path_def split: prod.splits sum.splits)

lemma process_resume_from_bytes_store:
  assumes "fst (extract_text_from_bytes (lib P) tmp_name files file_bytes filename) = Inr text"
    "parser P text = Inr d"
  shows "fst (snd (process_resume_from_bytes P tmp_name files h new_addr file_bytes filename jt jd w))
     = snd (screen_resume P (h(new_addr := d)) new_addr jt jd w)"
  using assms
  by (cases "extract_text_from_bytes (lib P) tmp_name files file_bytes filename")
     (simp add: process_resume_from_bytes_def parse_resume_from_bytes_def
        split: prod.splits sum.splits)

lemma process_resume_from_bytes_parsed:
  "fst (process_resume_from_bytes P tmp_name files h new_addr file_bytes filename jt jd w) = Inr r
     \<Longrightarrow> parsed r = new_addr"
  by (auto simp: process_resume_from_bytes_def split: prod.splits sum.splits)

text \<open>
  Claim C10. \<open>screen_resume\<close> assigns to the \<open>skills\<close> field of the resume that it is given,
  in the store, before it calls the screener: whenever the value of \<open>skills\<close> can be
  iterated as strings, as a list of strings and an absent field can, the store that
  \<open>screen_resume\<close> leaves is the one that the screener leaves when called on the store in
  which \<open>skills\<close> holds the normalized and expanded list, whether the screener returns
  or raises. With a screener that leaves the store as it is, after the call the \<open>skills\<close>
  field of the resume holds the normalized and expanded list, every other field of the
  resume is as before, and so is every other dictionary of the store. The two workflows
  return the address of the dictionary that the parser has returned, and in the store
  that they leave its \<open>skills\<close> field holds the normalized and expanded list of the skills
  that the parser has found.
\<close>

theorem screen_resume_replaces_skills:
  "(iter_strings (get_skills (h a)) = Inr skills \<longrightarrow>
      snd (screen_resume P h a jt jd w)
        = snd (screener P
                 (h(a := AList.update ''skills'' (str_list (reconciled_skills P skills jd)) (h a)))
                 a jt jd w))
   \<and> (iter_strings (get_skills (h a)) = Inr skills
        \<and> (\<forall>h' a' t d' w'. snd (screener P h' a' t d' w') = h') \<longrightarrow>
      map_of (snd (screen_resume P h a jt jd w) a) ''skills''
        = Some (str_list (reconciled_skills P skills jd))
      \<and> (\<forall>key. key \<noteq> ''skills'' \<longrightarrow>
            map_of (snd (screen_resume P h a jt jd w) a) key = map_of (h a) key)
      \<and> (\<forall>b. b \<noteq> a \<longrightarrow> snd (screen_resume P h a jt jd w) b = h b))
   \<and> (extract_text_from_file (lib P) files file_path = Inr resume_text \<and> parser P resume_text = Inr d
        \<and> iter_strings (get_skills d) = Inr skills
        \<and> (\<forall>h' a' t d' w'. snd (screener P h' a' t d' w') = h') \<longrightarrow>
      map_of (snd (process_resume_from_path P files h new_addr file_path jt jd w) new_addr) ''skills''
        = Some (str_list (reconciled_skills P skills jd))
      \<and> (\<forall>r. fst (process_resume_from_path P files h new_addr file_path jt jd w) = Inr r
            \<longrightarrow> parsed r = new_addr))
   \<and> (fst (extract_text_from_bytes (lib P) tmp_name files file_bytes filename) = Inr resume_text
        \<and> parser P resume_text = Inr d
        \<and> iter_strings (get_skills d) = Inr skills
        \<and> (\<forall>h' a' t d' w'. snd (screener P h' a' t d' w') = h') \<longrightarrow>
      map_of (fst (snd (process_resume_from_bytes P tmp_name files h new_addr file_bytes filename
                          jt jd w)) new_addr) ''skills''
        = Some (str_list (reconciled_skills P skills jd))
      \<and> (\<forall>r. fst (process_resume_from_bytes P tmp_name files h new_addr file_bytes filename
                     jt jd w) = Inr r
            \<longrightarrow> parsed r = new_addr))"
proof (intro conjI impI allI)
  show "snd (screen_resume P h a jt jd w)
        = snd (screener P
                 (h(a := AList.update ''skills'' (str_list (reconciled_skills P skills jd)) (h a)))
                 a jt jd w)"
    if "iter_strings (get_skills (h a)) = Inr skills"
    using that by (rule screen_resume_store)
next
  assume A: "iter_strings (get_skills (h a)) = Inr skills
        \<and> (\<forall>h' a' t d' w'. snd (screener P h' a' t d' w') = h')"
  have F: "snd (screen_resume P h a jt jd w)
     = h(a := AList.update ''skills'' (str_list (reconciled_skills P skills jd)) (h a))"
    using A by (intro screen_resume_frame) simp_all
  show "map_of (snd (screen_resume P h a jt jd w) a) ''skills''
        = Some (str_list (reconciled_skills P skills jd))"
    by (simp add: F update_conv')
  show "map_of (snd (screen_resume P h a jt jd w) a) key = map_of (h a) key"
    if "key \<noteq> ''skills''" for key
    using that by (simp add: F update_conv')
  show "snd (screen_resume P h a jt jd w) b = h b" if "b \<noteq> a" for b
    using that by (simp add: F)
next
  assume A: "extract_text_from_file (lib P) files file_path = Inr resume_text \<and> parser P resume_text = Inr d
        \<and> iter_strings (get_skills d) = Inr skills
        \<and> (\<forall>h' a' t d' w'. snd (screener P h' a' t d' w') = h')"
  have S: "snd (process_resume_from_path P files h new_addr file_path jt jd w)
     = snd (screen_resume P (h(new_addr := d)) new_addr jt jd w)"
  proof (rule process_resume_from_path_store)
    show "extract_text_from_file (lib P) files file_path = Inr resume_text" using A by simp
    show "parser P resume_text = Inr d" using A by simp
  qed
  have F: "snd (screen_resume P (h(new_addr := d)) new_addr jt jd w)
     = (h(new_addr := d))(new_addr :=
          AList.update ''skills'' (str_list (reconciled_skills P skills jd)) ((h(new_addr := d)) new_addr))"
    using A by (intro screen_resume_frame) simp_all
  show "map_of (snd (process_resume_from_path P files h new_addr file_path jt jd w) new_addr) ''skills''
        = Some (str_list (reconciled_skills P skills jd))"
    by (simp add: S F update_conv')
  show "parsed r = new_addr"
    if "fst (process_resume_from_path P files h new_addr file_path jt jd w) = Inr r" for r
    using that by (rule process_resume_from_path_parsed)
next
  assume A: "fst (extract_text_from_bytes (lib P) tmp_name files file_bytes filename) = Inr resume_text
        \<and> parser P resume_text = Inr d
        \<and> iter_strings (get_skills d) = Inr skills
        \<and> (\<forall>h' a' t d' w'. snd (screener P h' a' t d' w') = h')"
  have S: "fst (snd (process_resume_from_bytes P tmp_name files h new_addr file_bytes filename jt jd w))
     = snd (screen_resume P (h(new_addr := d)) new_addr jt jd w)"
  proof (rule process_resume_from_bytes_store)
    show "fst (extract_text_from_bytes (lib P) tmp_name files file_bytes filename) = Inr resume_text"
      using A by simp
    show "parser P resume_text = Inr d" using A by simp
  qed
  have F: "snd (screen_resume P (h(new_addr := d)) new_addr jt jd w)
     = (h(new_addr := d))(new_addr :=
          AList.update ''skills'' (str_list (reconciled_skills P skills jd)) ((h(new_addr := d)) new_addr))"
    using A by (intro screen_resume_frame) simp_all
  show "map_of (fst (snd (process_resume_from_bytes P tmp_name files h new_addr file_bytes filename
                          jt jd w)) new_addr) ''skills''
        = Some (str_list (reconciled_skills P skills jd))"
    by (simp add: S F update_conv')
  show "parsed r = new_addr"
    if "fst (process_resume_from_bytes P tmp_name files h new_addr file_bytes filename
                     jt jd w) = Inr r" for r
    using that by (rule process_resume_from_bytes_parsed)
qed


lemma demo_screener_keeps:
  "\<forall>h' a' t d' w'. snd (screener demo_processor h' a' t d' w') = h'"
  "\<forall>h' a' t d' w'. snd (screener failing_processor h' a' t d' w') = h'"
  by (simp_all add: demo_processor_def failing_processor_def)

lemma demo_iter:
  "iter_strings (get_skills (demo_heap 1)) = Inr [''MySQL'', '' Java '']"
  "iter_strings (get_skills demo_resume) = Inr [''MySQL'', '' Java '']"
  by code_simp+

lemma demo_reconciled:
  "reconciled_skills demo_processor [''MySQL'', '' Java ''] ''JavaScript and SQL''
     = [''sql'', ''java'', ''javascript'']"
  "reconciled_skills failing_processor [''MySQL'', '' Java ''] ''JavaScript and SQL''
     = [''sql'', ''java'', ''javascript'']"
  by code_simp+

lemma demo_name: "map_of (demo_heap 1) ''name'' = Some (PStr ''Jane Doe'')"
  by code_simp

lemma demo_failing_outcome:
  "fst (screen_resume failing_processor demo_heap 1 ''Engineer'' ''JavaScript and SQL'' PNone)
     = Inl (LibraryError ''rate limit'')"
  by code_simp

lemma demo_parse:
  "extract_text_from_file (lib demo_processor) demo_files ''cv.pdf''
     = Inr (''Jane Doe'' @ [CHR 0x0A] @ url_block [''u1'', ''u2''])"
  "parser demo_processor (''Jane Doe'' @ [CHR 0x0A] @ url_block [''u1'', ''u2'']) = Inr demo_resume"
  by code_simp+

lemma demo_parse_bytes:
  "fst (extract_text_from_bytes (lib demo_processor) ''/tmp/tmp1.pdf'' demo_files ''%PDF'' ''upload.PDF'')
     = Inr (''Jane Doe'' @ [CHR 0x0A] @ url_block [''u1'', ''u2''])"
  by code_simp

lemma demo_workflow:
  "fst (process_resume_from_path demo_processor demo_files demo_heap 2 ''cv.pdf'' ''Engineer''
          ''JavaScript and SQL'' PNone)
     = Inr \<lparr>parsed = 2,
            screened = PDict [(''overall_score'', PFloat 7.5),
                              (''skill_match'', PDict [(''text'', PStr ''strong fit'')])],
            optimization = PDict []\<rparr>"
  by code_simp

theorem screen_resume_replaces_skills_witness:
  "iter_strings (get_skills (demo_heap 1)) = Inr [''MySQL'', '' Java '']
   \<and> map_of (snd (screen_resume demo_processor demo_heap 1 ''Engineer'' ''JavaScript and SQL'' PNone) 1)
       ''skills'' = Some (PList [PStr ''sql'', PStr ''java'', PStr ''javascript''])
   \<and> map_of (snd (screen_resume demo_processor demo_heap 1 ''Engineer'' ''JavaScript and SQL'' PNone) 1)
       ''name'' = Some (PStr ''Jane Doe'')
   \<and> fst (screen_resume failing_processor demo_heap 1 ''Engineer'' ''JavaScript and SQL'' PNone)
       = Inl (LibraryError ''rate limit'')
   \<and> map_of (snd (screen_resume failing_processor demo_heap 1 ''Engineer'' ''JavaScript and SQL'' PNone) 1)
       ''skills'' = Some (PList [PStr ''sql'', PStr ''java'', PStr ''javascript''])
   \<and> fst (process_resume_from_path demo_processor demo_files demo_heap 2 ''cv.pdf'' ''Engineer''
          ''JavaScript and SQL'' PNone)
     = Inr \<lparr>parsed = 2,
            screened = PDict [(''overall_score'', PFloat 7.5),
                              (''skill_match'', PDict [(''text'', PStr ''strong fit'')])],
            optimization = PDict []\<rparr>
   \<and> map_of (snd (process_resume_from_path demo_processor demo_files demo_heap 2 ''cv.pdf''
                   ''Engineer'' ''JavaScript and SQL'' PNone) 2)
       ''skills'' = Some (PList [PStr ''sql'', PStr ''java'', PStr ''javascript''])
   \<and> map_of (fst (snd (process_resume_from_bytes demo_processor ''/tmp/tmp1.pdf'' demo_files demo_heap 2
                   ''%PDF'' ''upload.PDF'' ''Engineer'' ''JavaScript and SQL'' PNone)) 2)
       ''skills'' = Some (PList [PStr ''sql'', PStr ''java'', PStr ''javascript''])"
proof -
  note T = screen_resume_replaces_skills
    [where h = demo_heap and a = 1 and skills = "[''MySQL'', '' Java '']" and P = demo_processor
       and jt = "''Engineer''" and jd = "''JavaScript and SQL''" and w = PNone
       and files = demo_files and file_path = "''cv.pdf''"
       and resume_text = "''Jane Doe'' @ [CHR 0x0A] @ url_block [''u1'', ''u2'']" and d = demo_resume
       and new_addr = 2 and tmp_name = "''/tmp/tmp1.pdf''" and file_bytes = "''%PDF''"
       and filename = "''upload.PDF''"]
  note U = screen_resume_replaces_skills
    [where h = demo_heap and a = 1 and skills = "[''MySQL'', '' Java '']" and P = failing_processor
       and jt = "''Engineer''" and jd = "''JavaScript and SQL''" and w = PNone
       and files = demo_files and file_path = "''cv.pdf''"
       and resume_text = "''Jane Doe'' @ [CHR 0x0A] @ url_block [''u1'', ''u2'']" and d = demo_resume
       and new_addr = 2 and tmp_name = "''/tmp/tmp1.pdf''" and file_bytes = "''%PDF''"
       and filename = "''upload.PDF''"]
  have n: "''name'' \<noteq> ''skills''" by simp
  note T2 = T [THEN conjunct2, THEN conjunct1, rule_format, OF conjI [OF demo_iter(1) demo_screener_keeps(1)]]
  note U2 = U [THEN conjunct2, THEN conjunct1, rule_format, OF conjI [OF demo_iter(1) demo_screener_keeps(2)]]
  have 1: "map_of (snd (screen_resume demo_processor demo_heap 1 ''Engineer'' ''JavaScript and SQL'' PNone) 1)
       ''skills'' = Some (PList [PStr ''sql'', PStr ''java'', PStr ''javascript''])"
    using T2 [THEN conjunct1] by (simp add: demo_reconciled str_list_def)
  have 2: "map_of (snd (screen_resume demo_processor demo_heap 1 ''Engineer'' ''JavaScript and SQL'' PNone) 1)
       ''name'' = Some (PStr ''Jane Doe'')"
    using T2 [THEN conjunct2, THEN conjunct1, rule_format, OF n] demo_name by (rule trans)
  have 3: "map_of (snd (screen_resume failing_processor demo_heap 1 ''Engineer'' ''JavaScript and SQL'' PNone) 1)
       ''skills'' = Some (PList [PStr ''sql'', PStr ''java'', PStr ''javascript''])"
    using U2 [THEN conjunct1] by (simp add: demo_reconciled str_list_def)
  have 4: "map_of (snd (process_resume_from_path demo_processor demo_files demo_heap 2 ''cv.pdf''
                   ''Engineer'' ''JavaScript and SQL'' PNone) 2)
       ''skills'' = Some (PList [PStr ''sql'', PStr ''java'', PStr ''javascript''])"
    using T [THEN conjunct2, THEN conjunct2, THEN conjunct1, rule_format,
             OF conjI [OF demo_parse(1) conjI [OF demo_parse(2) conjI [OF demo_iter(2) demo_screener_keeps(1)]]],
             THEN conjunct1]
    by (simp add: demo_reconciled str_list_def)
  have 5: "map_of (fst (snd (process_resume_from_bytes demo_processor ''/tmp/tmp1.pdf'' demo_files demo_heap 2
                   ''%PDF'' ''upload.PDF'' ''Engineer'' ''JavaScript and SQL'' PNone)) 2)
       ''skills'' = Some (PList [PStr ''sql'', PStr ''java'', PStr ''javascript''])"
    using T [THEN conjunct2, THEN conjunct2, THEN conjunct2, rule_format,
             OF conjI [OF demo_parse_bytes conjI [OF demo_parse(2) conjI [OF demo_iter(2) demo_screener_keeps(1)]]],
             THEN conjunct1]
    by (simp add: demo_reconciled str_list_def)
  from demo_iter(1) 1 2 demo_failing_outcome 3 demo_workflow 4 5 show ?thesis by (intro conjI)
qed

end
